theory Spec2Isabelle
  imports Main "HOL-Library.Word" "HOL-Library.Log_Nat" "HOL-Library.Sublist"
begin

unbundle bit_operations_syntax

section \<open>Go values the program computes with\<close>

subsection \<open>Byte strings\<close>

text \<open>
  A Go \<open>string\<close> is a sequence of bytes; it is modelled as a \<open>char list\<close>, one \<open>char\<close>
  per byte. Non-ASCII text of the source (the degree sign) is written as its UTF-8 bytes.
\<close>

definition byte :: "char \<Rightarrow> nat" where
  "byte c = of_char c"

definition is_digit :: "char \<Rightarrow> bool" where
  \<comment> \<open>\<open>'0' <= c && c <= '9'\<close>\<close>
  "is_digit c = (48 \<le> byte c \<and> byte c \<le> 57)"

definition lower :: "char \<Rightarrow> char" where
  \<comment> \<open>strconv's \<open>lower(c) = c | ('x' ^ 'X')\<close>, that is \<open>c | 0x20\<close>\<close>
  "lower c = char_of (byte c OR 32)"

definition is_hex_letter :: "char \<Rightarrow> bool" where
  \<comment> \<open>\<open>'a' <= lower(c) && lower(c) <= 'f'\<close>\<close>
  "is_hex_letter c = (97 \<le> byte (lower c) \<and> byte (lower c) \<le> 102)"

definition digit_val :: "char \<Rightarrow> nat" where
  \<comment> \<open>\<open>c - '0'\<close>\<close>
  "digit_val c = byte c - 48"

definition hex_letter_val :: "char \<Rightarrow> nat" where
  \<comment> \<open>\<open>lower(c) - 'a' + 10\<close>\<close>
  "hex_letter_val c = byte (lower c) - 97 + 10"

definition digit_char :: "nat \<Rightarrow> char" where
  "digit_char d = char_of (48 + d)"

fun show_nat :: "nat \<Rightarrow> string" where
  "show_nat n = (if n < 10 then [digit_char n] else show_nat (n div 10) @ [digit_char (n mod 10)])"

declare show_nat.simps [simp del]

definition show_int :: "int \<Rightarrow> string" where
  \<comment> \<open>the decimal representation of an integer\<close>
  "show_int m = (if m < 0 then CHR ''-'' # show_nat (nat (- m)) else show_nat (nat m))"

subsection \<open>float64\<close>

text \<open>
  An IEEE 754 binary64 value: a finite value is a sign and a magnitude, the magnitude
  being the exact rational the bit pattern denotes (\<open>Finite True 0\<close> is the negative zero);
  the infinities carry their sign. Arithmetic rounds the exact result to the nearest
  representable magnitude, ties to even, as the hardware does.
\<close>

datatype float64 = Finite bool rat | Infinite bool | NaN

definition ilog2 :: "rat \<Rightarrow> int" where
  \<comment> \<open>for \<open>q > 0\<close>, the integer \<open>e\<close> with \<open>2^e \<le> q < 2^(e+1)\<close>\<close>
  "ilog2 q = (case quotient_of q of (n, d) \<Rightarrow>
     let k = bitlen n - bitlen d in if 2 powi k \<le> q then k else k - 1)"

definition round_half_even :: "rat \<Rightarrow> int" where
  "round_half_even x = (let f = \<lfloor>x\<rfloor>; r = x - of_int f in
     if r < 1 / 2 then f else if 1 / 2 < r then f + 1 else if even f then f else f + 1)"

definition f64_quantum :: "rat \<Rightarrow> rat" where
  \<comment> \<open>the spacing of binary64 values around \<open>q > 0\<close>: 52 fraction bits below the leading
      bit, and never finer than the subnormal spacing \<open>2^-1074\<close>\<close>
  "f64_quantum q = 2 powi (max (ilog2 q) (- 1022) - 52)"

definition f64_round :: "rat \<Rightarrow> rat option" where
  \<comment> \<open>round a magnitude \<open>q \<ge> 0\<close> to nearest, ties to even; \<open>None\<close> is overflow\<close>
  "f64_round q = (if q = 0 then Some 0 else
     let u = f64_quantum q; v = of_int (round_half_even (q / u)) * u
     in if 2 powi 1024 \<le> v then None else Some v)"

definition f64_make :: "bool \<Rightarrow> rat \<Rightarrow> float64" where
  \<comment> \<open>the float64 nearest to the exact value of sign \<open>neg\<close> and magnitude \<open>q\<close>\<close>
  "f64_make neg q = (case f64_round q of None \<Rightarrow> Infinite neg | Some v \<Rightarrow> Finite neg v)"

definition f64_of_int :: "int \<Rightarrow> float64" where
  "f64_of_int m = f64_make (m < 0) (of_int \<bar>m\<bar>)"

fun f64_div :: "float64 \<Rightarrow> float64 \<Rightarrow> float64" where
  "f64_div NaN y = NaN"
| "f64_div x NaN = NaN"
| "f64_div (Infinite s) (Infinite t) = NaN"
| "f64_div (Infinite s) (Finite t b) = Infinite (s \<noteq> t)"
| "f64_div (Finite s a) (Infinite t) = Finite (s \<noteq> t) 0"
| "f64_div (Finite s a) (Finite t b) =
     (if b = 0 then (if a = 0 then NaN else Infinite (s \<noteq> t))
      else f64_make (s \<noteq> t) (a / b))"

fun f64_gt :: "float64 \<Rightarrow> float64 \<Rightarrow> bool" where
  \<comment> \<open>Go's \<open>x > y\<close> on float64: false whenever an operand is NaN\<close>
  "f64_gt NaN y = False"
| "f64_gt x NaN = False"
| "f64_gt (Infinite s) (Infinite t) = (\<not> s \<and> t)"
| "f64_gt (Infinite s) (Finite t b) = (\<not> s)"
| "f64_gt (Finite s a) (Infinite t) = t"
| "f64_gt (Finite s a) (Finite t b) = ((if t then - b else b) < (if s then - a else a))"

fun f64_eq :: "float64 \<Rightarrow> float64 \<Rightarrow> bool" where
  \<comment> \<open>Go's \<open>x == y\<close> on float64: NaN equals nothing, the two zeros are equal\<close>
  "f64_eq NaN y = False"
| "f64_eq x NaN = False"
| "f64_eq (Infinite s) (Infinite t) = (s = t)"
| "f64_eq (Infinite s) (Finite t b) = False"
| "f64_eq (Finite s a) (Infinite t) = False"
| "f64_eq (Finite s a) (Finite t b) = ((if t then - b else b) = (if s then - a else a))"

definition fmt_f2 :: "float64 \<Rightarrow> string" where
  \<comment> \<open>fmt's verb \<open>%.2f\<close>: the exact value rounded to two decimals, ties to even\<close>
  "fmt_f2 x = (case x of
       NaN \<Rightarrow> ''NaN''
     | Infinite neg \<Rightarrow> (if neg then ''-Inf'' else ''+Inf'')
     | Finite neg q \<Rightarrow>
         (let k = nat (round_half_even (q * 100))
          in (if neg then ''-'' else '''') @ show_nat (k div 100) @ ''.''
             @ [digit_char (k div 10 mod 10), digit_char (k mod 10)]))"


subsection \<open>Package strings\<close>

text \<open>
  \<open>strings.TrimSpace\<close> removes leading and trailing white space as Unicode defines it.
  On a byte string that is: the six ASCII space bytes, and the UTF-8 encodings of U+0085,
  U+00A0, U+1680, U+2000 to U+200A, U+2028, U+2029, U+202F, U+205F and U+3000. A byte
  that does not start a valid encoding decodes as the replacement rune, which is not
  white space, so trimming stops there.
\<close>

definition ascii_space :: "char \<Rightarrow> bool" where
  \<comment> \<open>\<open>'\t', '\n', '\v', '\f', '\r', ' '\<close>\<close>
  "ascii_space c = (byte c \<in> {9, 10, 11, 12, 13, 32})"

definition unicode_spaces :: "string list" where
  "unicode_spaces =
     [[char_of (0xC2::nat), char_of (0x85::nat)],
      [char_of (0xC2::nat), char_of (0xA0::nat)],
      [char_of (0xE1::nat), char_of (0x9A::nat), char_of (0x80::nat)],
      [char_of (0xE2::nat), char_of (0x80::nat), char_of (0xA8::nat)],
      [char_of (0xE2::nat), char_of (0x80::nat), char_of (0xA9::nat)],
      [char_of (0xE2::nat), char_of (0x80::nat), char_of (0xAF::nat)],
      [char_of (0xE2::nat), char_of (0x81::nat), char_of (0x9F::nat)],
      [char_of (0xE3::nat), char_of (0x80::nat), char_of (0x80::nat)]]
     @ map (\<lambda>k. [char_of (0xE2::nat), char_of (0x80::nat), char_of (0x80 + k)]) [0..<11]"

definition space_prefix :: "string \<Rightarrow> nat" where
  \<comment> \<open>the width of the white-space rune the bytes start with, 0 if there is none\<close>
  "space_prefix s = (case s of [] \<Rightarrow> 0 | c # cs \<Rightarrow>
     if ascii_space c then 1
     else (case filter (\<lambda>u. take (length u) s = u) unicode_spaces of
             [] \<Rightarrow> 0 | u # _ \<Rightarrow> length u))"

definition space_suffix :: "string \<Rightarrow> nat" where
  \<comment> \<open>the width of the white-space rune the bytes end with, 0 if there is none\<close>
  "space_suffix s = (if s = [] then 0
     else if ascii_space (last s) then 1
     else (case filter (\<lambda>u. length u \<le> length s \<and> drop (length s - length u) s = u)
                 unicode_spaces of
             [] \<Rightarrow> 0 | u # _ \<Rightarrow> length u))"

function TrimLeft_space :: "string \<Rightarrow> string" where
  "TrimLeft_space s =
     (if space_prefix s = 0 \<or> length s < space_prefix s then s
      else TrimLeft_space (drop (space_prefix s) s))"
  by pat_completeness auto
termination
  by (relation "measure length") auto

function TrimRight_space :: "string \<Rightarrow> string" where
  "TrimRight_space s =
     (if space_suffix s = 0 \<or> length s < space_suffix s then s
      else TrimRight_space (take (length s - space_suffix s) s))"
  by pat_completeness auto
termination
  by (relation "measure length") auto

declare TrimLeft_space.simps [simp del] TrimRight_space.simps [simp del]

definition TrimSpace :: "string \<Rightarrow> string" where
  "TrimSpace s = TrimRight_space (TrimLeft_space s)"

text \<open>
  \<open>strings.ReplaceAll(s, old, new)\<close> for a non-empty \<open>old\<close>: scanning from the left, each
  occurrence of \<open>old\<close> is replaced and the scan resumes behind it, so the occurrences
  replaced do not overlap. (The program only calls it with \<open>old = ";"\<close>; an empty \<open>old\<close>,
  which Go matches between runes, leaves the string unchanged here.)
\<close>

function ReplaceAll :: "string \<Rightarrow> string \<Rightarrow> string \<Rightarrow> string" where
  "ReplaceAll s old new =
     (if old = [] \<or> s = [] then s
      else if take (length old) s = old then new @ ReplaceAll (drop (length old) s) old new
      else hd s # ReplaceAll (tl s) old new)"
  by pat_completeness auto
termination
  by (relation "measure (\<lambda>(s, old, new). length s)") auto

declare ReplaceAll.simps [simp del]


subsection \<open>Errors\<close>

text \<open>
  A Go \<open>error\<close> value, as far as \<open>errors.Is\<close> and \<open>Unwrap\<close> observe it. The sentinels
  are the variables of the standard library and of the program. \<open>OSError\<close> is an error
  returned by the operating-system layer (\<open>os.Stat\<close>, \<open>os.ReadFile\<close>, \<open>os.Hostname\<close>,
  \<open>exec.Cmd.Run\<close>) with its text and the sentinel it unwraps to, if any. \<open>Errorf f e\<close> is
  \<open>fmt.Errorf(f, ...)\<close> whose verb \<open>%w\<close> wraps \<open>e\<close>; the rendered text of a message
  is not modelled, only its format string.
\<close>

datatype err =
    ErrNotExist
  | DeadlineExceeded
  | ErrSyntax
  | ErrRange
  | errIsDirectory
  | errNotExecutable
  | errTestEmailRequiresRecipient
  | NumError string string err
  | OSError string "err option"
  | Errorf string err

fun errors_Is :: "err \<Rightarrow> err \<Rightarrow> bool" where
  \<comment> \<open>\<open>errors.Is(e, target)\<close>: \<open>e\<close> or an error in its \<open>Unwrap\<close> chain equals \<open>target\<close>\<close>
  "errors_Is (NumError f n e) t = (NumError f n e = t \<or> errors_Is e t)"
| "errors_Is (OSError m (Some e)) t = (OSError m (Some e) = t \<or> errors_Is e t)"
| "errors_Is (Errorf f e) t = (Errorf f e = t \<or> errors_Is e t)"
| "errors_Is e t = (e = t)"

subsection \<open>strconv.ParseFloat\<close>

text \<open>
  \<open>strconv.ParseFloat(s, 64)\<close> of the Go standard library. The syntax follows
  \<open>special\<close>, \<open>readFloat\<close> and \<open>underscoreOK\<close> of \<open>strconv/atof.go\<close> and \<open>atoi.go\<close> byte
  by byte. The value is what the library documents: the float64 nearest to the exact
  value of the literal, ties to even, and an infinity together with \<open>ErrRange\<close> when that
  overflows. The library's ways to compute it (the 19-digit mantissa, the 800-digit
  decimal buffer, the fast paths) are not modelled; the cap on the exponent digits, which
  changes the value denoted, is.
\<close>

record float_lit =
  lit_neg :: bool
  lit_hex :: bool
  lit_mant :: int  \<comment> \<open>the mantissa digits read as one number in base 10 or 16\<close>
  lit_frac :: nat  \<comment> \<open>how many of them stand behind the point\<close>
  lit_exp :: int   \<comment> \<open>the signed exponent, a power of 10 or, in a hex literal, of 2\<close>
  lit_len :: nat   \<comment> \<open>bytes consumed\<close>

record mant_state =
  sawdot :: bool
  sawdigits :: bool
  underscores :: bool
  mant :: int
  frac :: nat

fun commonPrefixLenIgnoreCase :: "string \<Rightarrow> string \<Rightarrow> nat" where
  "commonPrefixLenIgnoreCase (c # cs) (p # ps) =
     (let c' = (if 65 \<le> byte c \<and> byte c \<le> 90 then char_of (byte c + 32) else c)
      in if c' \<noteq> p then 0 else Suc (commonPrefixLenIgnoreCase cs ps))"
| "commonPrefixLenIgnoreCase _ _ = 0"

definition special :: "string \<Rightarrow> (float64 \<times> nat) option" where
  \<comment> \<open>the value and the bytes consumed when \<open>s\<close> starts with an infinity or a NaN\<close>
  "special s = (case s of [] \<Rightarrow> None | c # cs \<Rightarrow>
     let signed = (c = CHR ''+'' \<or> c = CHR ''-'');
         inf = (\<lambda>t nsign.
           let n = commonPrefixLenIgnoreCase t ''infinity'';
               n' = (if 3 < n \<and> n < 8 then 3 else n)
           in if n' = 3 \<or> n' = 8 then Some (Infinite (c = CHR ''-''), nsign + n') else None)
     in if signed then inf cs 1
        else if c = CHR ''i'' \<or> c = CHR ''I'' then inf s 0
        else if c = CHR ''n'' \<or> c = CHR ''N'' then
          (if commonPrefixLenIgnoreCase s ''nan'' = 3 then Some (NaN, 3) else None)
        else None)"

fun mant_loop :: "int \<Rightarrow> string \<Rightarrow> mant_state \<Rightarrow> mant_state \<times> string" where
  \<comment> \<open>the digit loop of \<open>readFloat\<close>: the state at its exit and the bytes not consumed\<close>
  "mant_loop base [] st = (st, [])"
| "mant_loop base (c # cs) st =
     (if c = CHR ''_'' then mant_loop base cs (st\<lparr>underscores := True\<rparr>)
      else if c = CHR ''.'' then
        (if sawdot st then (st, c # cs) else mant_loop base cs (st\<lparr>sawdot := True\<rparr>))
      else if is_digit c then
        mant_loop base cs (st\<lparr>sawdigits := True, mant := mant st * base + int (digit_val c),
                              frac := (if sawdot st then Suc (frac st) else frac st)\<rparr>)
      else if base = 16 \<and> is_hex_letter c then
        mant_loop base cs (st\<lparr>sawdigits := True, mant := mant st * base + int (hex_letter_val c),
                              frac := (if sawdot st then Suc (frac st) else frac st)\<rparr>)
      else (st, c # cs))"

fun exp_loop :: "string \<Rightarrow> int \<Rightarrow> bool \<Rightarrow> int \<times> bool \<times> string" where
  \<comment> \<open>the exponent digits: the value stops growing once it has reached 10000\<close>
  "exp_loop [] e us = (e, us, [])"
| "exp_loop (c # cs) e us =
     (if c = CHR ''_'' then exp_loop cs e True
      else if is_digit c then exp_loop cs (if e < 10000 then e * 10 + int (digit_val c) else e) us
      else (e, us, c # cs))"

definition read_exponent :: "bool \<Rightarrow> string \<Rightarrow> (int \<times> bool \<times> string) option" where
  \<comment> \<open>the optional exponent (mandatory in a hex literal): its signed value, whether it
      held an underscore, and the bytes not consumed\<close>
  "read_exponent hex s = (case s of
       c # cs \<Rightarrow>
         if lower c = (if hex then CHR ''p'' else CHR ''e'') then
           (case cs of [] \<Rightarrow> None
            | d # ds \<Rightarrow>
                let esign = (if d = CHR ''-'' then - 1 else 1);
                    t = (if d = CHR ''+'' \<or> d = CHR ''-'' then ds else cs)
                in (case t of [] \<Rightarrow> None
                    | x # _ \<Rightarrow>
                        if \<not> is_digit x then None
                        else (case exp_loop t 0 False of
                                (e, us, rest) \<Rightarrow> Some (e * esign, us, rest))))
         else if hex then None else Some (0, False, s)
     | [] \<Rightarrow> if hex then None else Some (0, False, s))"

fun underscore_scan :: "bool \<Rightarrow> string \<Rightarrow> char \<Rightarrow> bool" where
  \<comment> \<open>the loop of \<open>underscoreOK\<close>; \<open>saw\<close> is \<open>'0'\<close> after a digit, \<open>'_'\<close> after an
      underscore, \<open>'!'\<close> after anything else\<close>
  "underscore_scan hex [] saw = (saw \<noteq> CHR ''_'')"
| "underscore_scan hex (c # cs) saw =
     (if is_digit c \<or> (hex \<and> is_hex_letter c) then underscore_scan hex cs CHR ''0''
      else if c = CHR ''_'' then (if saw \<noteq> CHR ''0'' then False else underscore_scan hex cs CHR ''_'')
      else if saw = CHR ''_'' then False
      else underscore_scan hex cs CHR ''!'')"

definition underscoreOK :: "string \<Rightarrow> bool" where
  "underscoreOK s =
     (let s1 = (case s of c # cs \<Rightarrow> if c = CHR ''-'' \<or> c = CHR ''+'' then cs else s | [] \<Rightarrow> s)
      in case s1 of
           a # b # rest \<Rightarrow>
             if a = CHR ''0'' \<and> (lower b = CHR ''b'' \<or> lower b = CHR ''o'' \<or> lower b = CHR ''x'')
             then underscore_scan (lower b = CHR ''x'') rest CHR ''0''
             else underscore_scan False s1 CHR ''^''
         | _ \<Rightarrow> underscore_scan False s1 CHR ''^'')"

definition hex_prefix :: "string \<Rightarrow> bool" where
  \<comment> \<open>\<open>i+2 < len(s) && s[i] == '0' && lower(s[i+1]) == 'x'\<close>\<close>
  "hex_prefix s = (case s of a # b # _ # _ \<Rightarrow> a = CHR ''0'' \<and> lower b = CHR ''x'' | _ \<Rightarrow> False)"

definition readFloat :: "string \<Rightarrow> float_lit option" where
  \<comment> \<open>\<open>None\<close> when \<open>readFloat\<close> reports \<open>ok = false\<close>\<close>
  "readFloat s = (case s of [] \<Rightarrow> None | c # cs \<Rightarrow>
     let neg = (c = CHR ''-'');
         s1 = (if c = CHR ''+'' \<or> c = CHR ''-'' then cs else s);
         hex = hex_prefix s1;
         s2 = (if hex then drop 2 s1 else s1)
     in case mant_loop (if hex then 16 else 10) s2
               \<lparr>sawdot = False, sawdigits = False, underscores = False, mant = 0, frac = 0\<rparr> of
          (st, s3) \<Rightarrow>
            if \<not> sawdigits st then None
            else (case read_exponent hex s3 of None \<Rightarrow> None
                  | Some (e, us, s4) \<Rightarrow>
                      let n = length s - length s4
                      in if (underscores st \<or> us) \<and> \<not> underscoreOK (take n s) then None
                         else Some \<lparr>lit_neg = neg, lit_hex = hex, lit_mant = mant st,
                                    lit_frac = frac st, lit_exp = e, lit_len = n\<rparr>))"

definition lit_value :: "float_lit \<Rightarrow> rat" where
  \<comment> \<open>the exact magnitude a literal denotes\<close>
  "lit_value l =
     (if lit_hex l then of_int (lit_mant l) * 16 powi (- int (lit_frac l)) * 2 powi lit_exp l
      else of_int (lit_mant l) * 10 powi (- int (lit_frac l)) * 10 powi lit_exp l)"

definition syntaxError :: "string \<Rightarrow> err" where
  "syntaxError s = NumError ''ParseFloat'' s ErrSyntax"

definition rangeError :: "string \<Rightarrow> err" where
  "rangeError s = NumError ''ParseFloat'' s ErrRange"

definition atof64 :: "string \<Rightarrow> float64 \<times> nat \<times> err option" where
  \<comment> \<open>value, bytes consumed, error; after a syntax error the count is not used\<close>
  "atof64 s = (case special s of
       Some (v, n) \<Rightarrow> (v, n, None)
     | None \<Rightarrow>
         (case readFloat s of
            None \<Rightarrow> (Finite False 0, 0, Some (syntaxError s))
          | Some l \<Rightarrow>
              (case f64_round (lit_value l) of
                 None \<Rightarrow> (Infinite (lit_neg l), lit_len l, Some (rangeError s))
               | Some v \<Rightarrow> (Finite (lit_neg l) v, lit_len l, None))))"

definition ParseFloat :: "string \<Rightarrow> float64 \<times> err option" where
  "ParseFloat s = (case atof64 s of (f, n, e) \<Rightarrow>
     if n \<noteq> length s \<and> e \<noteq> Some (syntaxError s)
     then (Finite False 0, Some (syntaxError s))
     else (f, e))"

definition float_literal :: "string \<Rightarrow> bool" where
  \<comment> \<open>the whole of \<open>s\<close> is an infinity, a NaN or a floating-point literal\<close>
  "float_literal s = (case special s of
       Some (v, n) \<Rightarrow> n = length s
     | None \<Rightarrow> (case readFloat s of Some l \<Rightarrow> lit_len l = length s | None \<Rightarrow> False))"

definition literal_overflows :: "string \<Rightarrow> bool" where
  \<comment> \<open>\<open>s\<close> starts with a literal whose value rounds beyond the largest float64\<close>
  "literal_overflows s = (special s = None \<and>
     (case readFloat s of Some l \<Rightarrow> f64_round (lit_value l) = None | None \<Rightarrow> False))"

definition f64_overflow :: rat where
  \<comment> \<open>halfway between the largest float64 and \<open>2^1024\<close>: magnitudes from here on overflow\<close>
  "f64_overflow = 2 powi 1024 - 2 powi 970"

section \<open>The program\<close>

subsection \<open>Constants, configuration and the outside world\<close>

definition appPrefix :: string where "appPrefix = ''-----''"
definition appName :: string where "appName = ''Go-Raspi-Temp-Monitor''"
definition appVersion :: string where "appVersion = ''0.7.0''"
definition noEmailRecipient :: string where "noEmailRecipient = ''<none>''"
definition cpuTempFilePath :: string where "cpuTempFilePath = ''/sys/class/thermal/thermal_zone0/temp''"
definition mailCommand :: string where "mailCommand = ''/usr/bin/mail''"

record config =
  EmailRecipient :: string
  TempThreshold :: float64
  CheckInterval :: int  \<comment> \<open>a \<open>time.Duration\<close>, in nanoseconds\<close>
  TestEmailFlag :: bool
  Hostname :: string

type_synonym FileMode = "32 word"

definition ModeDir :: FileMode where "ModeDir = push_bit 31 1"
definition ModeSymlink :: FileMode where "ModeSymlink = push_bit 27 1"
definition ModeDevice :: FileMode where "ModeDevice = push_bit 26 1"
definition ModeNamedPipe :: FileMode where "ModeNamedPipe = push_bit 25 1"
definition ModeSocket :: FileMode where "ModeSocket = push_bit 24 1"
definition ModeCharDevice :: FileMode where "ModeCharDevice = push_bit 21 1"
definition ModeIrregular :: FileMode where "ModeIrregular = push_bit 19 1"

definition ModeType :: FileMode where
  "ModeType = ModeDir OR ModeSymlink OR ModeNamedPipe OR ModeSocket OR ModeDevice
              OR ModeCharDevice OR ModeIrregular"

definition IsDir :: "FileMode \<Rightarrow> bool" where
  "IsDir m = (m AND ModeDir \<noteq> 0)"

definition IsRegular :: "FileMode \<Rightarrow> bool" where
  "IsRegular m = (m AND ModeType = 0)"

text \<open>
  What a run of the mail command comes to: \<open>cmd.Run()\<close> returns \<open>nil\<close>, or it returns an
  error and \<open>ctx.Err()\<close> is then either \<open>nil\<close> or \<open>context.DeadlineExceeded\<close> (the context
  is a 15 second timeout on the background context, cancelled only on return). The flag
  of \<open>RunFailed\<close> says that the deadline has passed.
\<close>

datatype run_result = RunOK | RunFailed err bool

record invocation =
  argv :: "string list"  \<comment> \<open>the command and its arguments\<close>
  stdin :: string

text \<open>
  The world a call observes: the file system behind \<open>os.ReadFile\<close>, the outcome of
  executing a subprocess, and the text \<open>time.Now().Format(time.RFC1123)\<close> yields.
\<close>

record env =
  read_file :: "string \<Rightarrow> err + string"
  exec_run :: "invocation \<Rightarrow> run_result"
  now :: string

datatype status = Running | Exited int | Panicked

text \<open>
  What a call leaves behind: the lines logged, each recorded as the format string (or the
  constant text) of its logging call, the subprocesses run, in order, and whether the
  process is still running, has called \<open>os.Exit\<close> or has panicked. The text of log
  lines and of error messages is not rendered: the operands of their verbs, among them
  the standard error captured from the mail command, reach nothing but that text. The
  strings handed to the subprocess are rendered in full.
\<close>

record world =
  log :: "string list"
  runs :: "invocation list"
  status :: status

definition logf :: "string \<Rightarrow> world \<Rightarrow> world" where
  "logf m w = w\<lparr>log := log w @ [m]\<rparr>"

definition degC :: string where
  \<comment> \<open>the degree sign in UTF-8, then \<open>C\<close>\<close>
  "degC = [char_of (0xC2::nat), char_of (0xB0::nat), CHR ''C'']"

definition nl :: string where
  "nl = [char_of (10::nat)]"

definition quote :: string where
  \<comment> \<open>the single quote of the format strings\<close>
  "quote = [char_of (39::nat)]"

subsection \<open>Functions of main.go\<close>

definition validateMailCommand :: "(string \<Rightarrow> err + FileMode) \<Rightarrow> string \<Rightarrow> err option" where
  \<comment> \<open>the first argument is \<open>os.Stat\<close>, giving the error or the mode of the file; \<open>0x49\<close> is Go's octal \<open>0111\<close>\<close>
  "validateMailCommand stat mailCmd = (case stat mailCmd of
       Inl e \<Rightarrow>
         if errors_Is e ErrNotExist
         then Some (Errorf (''Error: '' @ quote @ ''%s'' @ quote @ '' %w'') ErrNotExist)
         else Some (Errorf ''Error: %w'' e)
     | Inr m \<Rightarrow>
         if IsDir m then Some (Errorf (''Error: %w '' @ quote @ ''%s'' @ quote) errIsDirectory)
         else if m AND 0x49 = 0 then Some (Errorf ''%w (%s)'' errNotExecutable)
         else None)"

definition showConfiguration :: "config \<Rightarrow> world \<Rightarrow> config \<times> world" where
  \<comment> \<open>takes \<open>*config\<close>: the configuration it returns is what the pointer refers to afterwards\<close>
  "showConfiguration cfg w =
     (let w1 = logf ''|'' w;
          w2 = logf ''| Application version: %s'' w1;
          w3 = logf (''| Temperature threshold ('' @ quote @ ''-threshold'' @ quote @ ''): %.2f'' @ degC) w2;
          w4 = logf (''| Check interval ('' @ quote @ ''-interval'' @ quote @ ''): %s'') w3;
          cfg' = (if EmailRecipient cfg = [] then cfg\<lparr>EmailRecipient := noEmailRecipient\<rparr> else cfg);
          w5 = logf (''| Email recipient ('' @ quote @ ''-recipient'' @ quote @ ''): %s'') w4;
          w6 = logf ''| Mail command: %s'' w5;
          w7 = logf ''| Device hostname: %s'' w6;
          w8 = logf ''|'' w7
      in (cfg', w8))"

definition getHostname :: "err + string \<Rightarrow> string" where
  \<comment> \<open>the argument is what \<open>os.Hostname()\<close> returns\<close>
  "getHostname h = (case h of Inl e \<Rightarrow> ''<unknown-host>'' | Inr hostname \<Rightarrow> hostname)"

definition sendEmail :: "config \<Rightarrow> string \<Rightarrow> string \<Rightarrow> env \<Rightarrow> world \<Rightarrow> err option \<times> world" where
  \<comment> \<open>the line logged for a failed run is \<open>errMsg\<close>, recorded by the format that builds it\<close>
  "sendEmail cfg subject body e w =
     (if EmailRecipient cfg = noEmailRecipient
      then (None, logf ''Email recipient not set: no email will be sent.'' w)
      else
        let sanitizedSubject = ReplaceAll subject '';'' [];
            sanitizedRecipient = ReplaceAll (EmailRecipient cfg) '';'' [];
            cmd = \<lparr>argv = [mailCommand, ''-s'', sanitizedSubject, sanitizedRecipient],
                   stdin = body\<rparr>;
            w1 = logf ''Attempting to send email to %s'' w;
            w2 = w1\<lparr>runs := runs w1 @ [cmd]\<rparr>
        in (case exec_run e cmd of
              RunFailed er deadline \<Rightarrow>
                if deadline
                then (Some (Errorf ''%s (timed out): %w'' DeadlineExceeded), logf ''%s (timed out)'' w2)
                else (Some (Errorf ''%s: %w'' er), logf ''failed to send email: %v'' w2)
            | RunOK \<Rightarrow> (None, logf ''Email sent successfully to %s'' w2)))"

definition parse_failed :: string where
  \<comment> \<open>the format of the error for a sensor value that does not parse\<close>
  "parse_failed = ''failed to parse temperature value '' @ quote @ ''%s'' @ quote @ '': %w''"

definition read_failed :: string where
  \<comment> \<open>the format of the error for a sensor file that cannot be read\<close>
  "read_failed = ''failed to read temperature file %s: %w''"

definition getCPUTemperature :: "env \<Rightarrow> err + float64" where
  "getCPUTemperature e = (case read_file e cpuTempFilePath of
       Inl er \<Rightarrow> Inl (Errorf read_failed er)
     | Inr data \<Rightarrow>
         let tempStr = TrimSpace data
         in (case ParseFloat tempStr of
               (tempVal, Some er) \<Rightarrow> Inl (Errorf parse_failed er)
             | (tempVal, None) \<Rightarrow> Inr (f64_div tempVal (Finite False 1000))))"

definition sendTestEmail :: "config \<Rightarrow> env \<Rightarrow> world \<Rightarrow> err option \<times> world" where
  "sendTestEmail cfg e w =
     (if EmailRecipient cfg = noEmailRecipient then (Some errTestEmailRequiresRecipient, w)
      else (case getCPUTemperature e of
             Inl er \<Rightarrow> (Some er, w)
           | Inr currentTemp \<Rightarrow>
               let subject = appName @ '': Test Alert ('' @ Hostname cfg @ '')'';
                   body = ''Warning: this is a test email'' @ nl @ ''Hostname: '' @ Hostname cfg @ nl
                          @ ''Current CPU temperature: '' @ fmt_f2 currentTemp @ degC @ nl
                          @ ''Timestamp: '' @ now e
               in (case sendEmail cfg subject body e w of
                     (Some er, w') \<Rightarrow> (Some (Errorf ''%w'' er), w')
                   | (None, w') \<Rightarrow> (None, w'))))"

definition alert_line :: string where
  "alert_line = ''ALERT: Temperature %.2f'' @ degC @ '' exceeds threshold of %.2f'' @ degC"

definition compareTemperatures :: "config \<Rightarrow> env \<Rightarrow> world \<Rightarrow> world" where
  "compareTemperatures cfg e w = (case getCPUTemperature e of
       Inl er \<Rightarrow> logf ''Error reading CPU temperature: %v'' w
     | Inr currentTemp \<Rightarrow>
         let w1 = logf (''Current CPU temperature: %.2f'' @ degC) w
         in if f64_gt currentTemp (TempThreshold cfg) then
              let w2 = logf alert_line w1
              in if EmailRecipient cfg = noEmailRecipient
                 then logf ''No recipient configured: no email notification sent'' w2
                 else
                   let w3 = logf ''Sending email notification'' w2;
                       subject = appName @ '': CPU Temp Alert ('' @ Hostname cfg @ ''): ''
                                 @ fmt_f2 currentTemp @ degC;
                       body = ''Warning: CPU temperature on '' @ Hostname cfg
                              @ '' has exceeded threshold'' @ nl
                              @ ''Threshold temp: '' @ fmt_f2 (TempThreshold cfg) @ degC @ nl
                              @ ''Current temp: '' @ fmt_f2 currentTemp @ degC @ nl
                              @ ''Timestamp: '' @ now e
                   in (case sendEmail cfg subject body e w3 of
                         (Some er, w4) \<Rightarrow> logf ''Error sending alert email: %v'' w4
                       | (None, w4) \<Rightarrow> w4)
            else w1)"

definition hello :: "world \<Rightarrow> world" where
  "hello w = logf (appPrefix @ '' Starting '' @ appName @ '' '' @ appVersion) w"

definition goodbye :: "world \<Rightarrow> world" where
  \<comment> \<open>logs and calls \<open>os.Exit(0)\<close>\<close>
  "goodbye w = (logf (appPrefix @ '' Exiting '' @ appName @ '' '' @ appVersion) w)\<lparr>status := Exited 0\<rparr>"

text \<open>
  The loop of \<open>tempCheckLoop\<close> waits on the ticker and on the signal channel. What it does
  is determined by the sequence of events the \<open>select\<close> receives; each tick comes with
  the world its cycle observes. After a finite sequence without a signal the process is
  still running, blocked in \<open>select\<close>. (The carriage return printed to standard output
  on a signal is not part of the log.) What follows a call in the source runs only if the
  call has left the process running: a cycle that ended the process would end the loop.
\<close>

datatype event = is_Tick: Tick env | is_Signal: Signal string

fun select_loop :: "config \<Rightarrow> event list \<Rightarrow> world \<Rightarrow> world" where
  "select_loop cfg [] w = w"
| "select_loop cfg (Tick e # evs) w =
     (let w' = compareTemperatures cfg e w
      in if status w' = Running then select_loop cfg evs w' else w')"
| "select_loop cfg (Signal sig # evs) w = goodbye (logf ''Received signal %s: shutting down'' w)"

definition tempCheckLoop :: "config \<Rightarrow> event list \<Rightarrow> world \<Rightarrow> world" where
  \<comment> \<open>\<open>time.NewTicker\<close> panics when the interval is not positive\<close>
  "tempCheckLoop cfg evs w =
     (if CheckInterval cfg \<le> 0 then w\<lparr>status := Panicked\<rparr> else select_loop cfg evs w)"

record startup =
  flags :: config  \<comment> \<open>what \<open>parseFlags\<close> returns\<close>
  os_hostname :: "err + string"  \<comment> \<open>what \<open>os.Hostname\<close> returns\<close>
  os_stat :: "string \<Rightarrow> err + FileMode"  \<comment> \<open>\<open>os.Stat\<close>\<close>

record process =
  p_cfg :: config  \<comment> \<open>the variable \<open>cfg\<close> of \<open>main\<close>\<close>
  p_world :: world

definition main :: "startup \<Rightarrow> env \<Rightarrow> event list \<Rightarrow> process" where
  \<comment> \<open>\<open>e0\<close> is the world seen by the test email or by the initial check\<close>
  "main su e0 evs =
     (let w0 = hello \<lparr>log = [], runs = [], status = Running\<rparr>;
          cfg0 = (flags su)\<lparr>Hostname := getHostname (os_hostname su)\<rparr>
      in case validateMailCommand (os_stat su) mailCommand of
           Some er \<Rightarrow> \<lparr>p_cfg = cfg0, p_world = goodbye (logf ''%v'' w0)\<rparr>
         | None \<Rightarrow>
             (case showConfiguration cfg0 (logf (appPrefix @ '' Configuration'') w0) of
                (cfg, w2) \<Rightarrow>
                  if TestEmailFlag cfg then
                    (case sendTestEmail cfg e0 w2 of
                       (r, w3) \<Rightarrow>
                         let w4 = (case r of Some er \<Rightarrow> logf ''Error sending test email: %v'' w3
                                   | None \<Rightarrow> w3)
                         in \<lparr>p_cfg = cfg,
                             p_world = (if status w4 = Running then goodbye w4 else w4)\<rparr>)
                  else
                    let w3 = logf (appPrefix @ '' Monitoring'') w2;
                        w4 = compareTemperatures cfg e0 w3
                    in \<lparr>p_cfg = cfg,
                        p_world = (if status w4 = Running then tempCheckLoop cfg evs w4 else w4)\<rparr>))"

subsection \<open>What a call adds, and worlds to run the program in\<close>

definition new_log :: "world \<Rightarrow> world \<Rightarrow> string list" where
  \<comment> \<open>the lines logged between two states of the world\<close>
  "new_log w w' = drop (length (log w)) (log w')"

definition new_runs :: "world \<Rightarrow> world \<Rightarrow> invocation list" where
  \<comment> \<open>the subprocesses run between two states of the world\<close>
  "new_runs w w' = drop (length (runs w)) (runs w')"

definition digits_val :: "int \<Rightarrow> string \<Rightarrow> int" where
  \<comment> \<open>the number a string of decimal digits denotes, read after the digits of \<open>acc\<close>\<close>
  "digits_val acc ds = foldl (\<lambda>a c. a * 10 + int (digit_val c)) acc ds"

definition default_flags :: config where
  \<comment> \<open>what \<open>parseFlags\<close> returns when no flag is given\<close>
  "default_flags = \<lparr>EmailRecipient = [], TempThreshold = Finite False 60,
     CheckInterval = 300000000000, TestEmailFlag = False, Hostname = []\<rparr>"

definition empty_world :: world where
  "empty_world = \<lparr>log = [], runs = [], status = Running\<rparr>"

definition sensor_env :: "string \<Rightarrow> run_result \<Rightarrow> env" where
  \<comment> \<open>a world whose sensor file holds \<open>data\<close> and whose mail command ends as \<open>r\<close>\<close>
  "sensor_env data r =
     \<lparr>read_file = (\<lambda>p. if p = cpuTempFilePath then Inr data
                        else Inl (OSError ''no such file or directory'' (Some ErrNotExist))),
      exec_run = (\<lambda>i. r),
      now = ''Mon, 02 Jan 2006 15:04:05 MST''\<rparr>"

definition no_sensor_env :: "run_result \<Rightarrow> env" where
  \<comment> \<open>a world without a sensor file\<close>
  "no_sensor_env r =
     \<lparr>read_file = (\<lambda>p. Inl (OSError ''no such file or directory'' (Some ErrNotExist))),
      exec_run = (\<lambda>i. r),
      now = ''Mon, 02 Jan 2006 15:04:05 MST''\<rparr>"

definition alice_cfg :: config where
  \<comment> \<open>the default configuration with a recipient and a host name\<close>
  "alice_cfg = default_flags\<lparr>EmailRecipient := ''alice@example.com'', Hostname := ''raspberrypi''\<rparr>"

definition stat_as :: "err + FileMode \<Rightarrow> string \<Rightarrow> err + FileMode" where
  \<comment> \<open>a file system in which every path stats as \<open>r\<close>\<close>
  "stat_as r p = r"

definition shown :: "config \<Rightarrow> config" where
  \<comment> \<open>a configuration whose empty recipient has been replaced by the sentinel\<close>
  "shown cfg = cfg\<lparr>EmailRecipient :=
     (if EmailRecipient cfg = [] then noEmailRecipient else EmailRecipient cfg)\<rparr>"



section \<open>Facts about the library models\<close>

subsection \<open>Powers of two and the binary logarithm\<close>

lemma powi_pos [simp]: "(0::rat) < 2 powi k"
  by (simp add: power_int_def)

lemma powi_Suc: "(2::rat) powi (k + 1) = 2 * 2 powi k"
  by (simp add: power_int_add)

lemma powi_mono: "k \<le> l \<Longrightarrow> (2::rat) powi k \<le> 2 powi l"
  by (rule power_int_increasing) simp_all

lemma powi_strict_mono: "k < l \<Longrightarrow> (2::rat) powi k < 2 powi l"
  by (rule power_int_strict_increasing) simp_all

lemma powi_of_nat: "(2::rat) powi (int n) = 2 ^ n"
  by simp

lemma bitlen_rat_bounds:
  assumes "0 < n"
  shows "(2::rat) powi (bitlen n - 1) \<le> of_int n" and "of_int n < (2::rat) powi (bitlen n)"
proof -
  from bitlen_bounds [OF assms] have a: "2 ^ nat (bitlen n - 1) \<le> n" and b: "n < 2 ^ nat (bitlen n)"
    by simp_all
  have pos: "1 \<le> bitlen n" using assms by (simp add: bitlen_alt_def)
  have "(2::rat) powi (bitlen n - 1) = 2 ^ nat (bitlen n - 1)"
    using pos by (simp add: power_int_def)
  also have "\<dots> = of_int (2 ^ nat (bitlen n - 1))" by simp
  also have "\<dots> \<le> of_int n" using a by (simp only: of_int_le_iff)
  finally show "(2::rat) powi (bitlen n - 1) \<le> of_int n" .
  have "(of_int n :: rat) < of_int (2 ^ nat (bitlen n))" using b by (simp only: of_int_less_iff)
  also have "\<dots> = 2 powi (bitlen n)" using pos by (simp add: power_int_def)
  finally show "of_int n < (2::rat) powi (bitlen n)" .
qed

lemma ilog2_bounds:
  assumes "0 < q"
  shows "2 powi (ilog2 q) \<le> q \<and> q < 2 powi (ilog2 q + 1)"
proof -
  obtain n d where nd: "quotient_of q = (n, d)" by (cases "quotient_of q")
  then have d: "0 < d" and q: "q = of_int n / of_int d"
    using quotient_of_denom_pos quotient_of_div by auto
  have n: "0 < n" using assms d q by (simp add: zero_less_divide_iff)
  define k where "k = bitlen n - bitlen d"
  have lo: "(2::rat) powi (k - 1) < q"
  proof -
    have "(2::rat) powi (k - 1) * of_int d < 2 powi (k - 1) * 2 powi (bitlen d)"
      using bitlen_rat_bounds(2) [OF d] by simp
    also have "\<dots> = 2 powi (bitlen n - 1)"
      by (simp add: k_def flip: power_int_add)
    also have "\<dots> \<le> of_int n" by (rule bitlen_rat_bounds(1) [OF n])
    finally show ?thesis using d by (simp add: q pos_less_divide_eq)
  qed
  have hi: "q < (2::rat) powi (k + 1)"
  proof -
    have "(of_int n :: rat) < 2 powi (bitlen n)" by (rule bitlen_rat_bounds(2) [OF n])
    also have "\<dots> = 2 powi (k + 1) * 2 powi (bitlen d - 1)"
      by (simp add: k_def flip: power_int_add)
    also have "\<dots> \<le> 2 powi (k + 1) * of_int d"
      using bitlen_rat_bounds(1) [OF d] by simp
    finally show ?thesis using d by (simp add: q pos_divide_less_eq)
  qed
  show ?thesis
  proof (cases "2 powi k \<le> q")
    case True
    then have "ilog2 q = k" by (simp add: ilog2_def nd k_def)
    with True hi show ?thesis by simp
  next
    case False
    then have "ilog2 q = k - 1" by (simp add: ilog2_def nd k_def)
    with False lo show ?thesis by simp
  qed
qed

lemma ilog2_unique:
  assumes "2 powi e \<le> q" "q < 2 powi (e + 1)"
  shows "ilog2 q = e"
proof -
  have q: "0 < q" using assms(1) powi_pos [of e] by linarith
  from ilog2_bounds [OF q] have a: "2 powi (ilog2 q) \<le> q" and b: "q < 2 powi (ilog2 q + 1)"
    by simp_all
  have "\<not> e + 1 \<le> ilog2 q"
  proof
    assume "e + 1 \<le> ilog2 q"
    then have "(2::rat) powi (e + 1) \<le> 2 powi (ilog2 q)" by (rule powi_mono)
    with a assms(2) show False by linarith
  qed
  moreover have "\<not> ilog2 q + 1 \<le> e"
  proof
    assume "ilog2 q + 1 \<le> e"
    then have "(2::rat) powi (ilog2 q + 1) \<le> 2 powi e" by (rule powi_mono)
    with b assms(1) show False by linarith
  qed
  ultimately show ?thesis by linarith
qed

subsection \<open>Rounding to nearest, ties to even\<close>

lemma rhe_of_int [simp]: "round_half_even (of_int n) = n"
  by (simp add: round_half_even_def)

lemma rhe_ge_floor: "\<lfloor>x\<rfloor> \<le> round_half_even x"
  by (simp add: round_half_even_def Let_def)

lemma rhe_le_floor1: "round_half_even x \<le> \<lfloor>x\<rfloor> + 1"
  by (simp add: round_half_even_def Let_def)

lemma rhe_le_int: "x \<le> of_int n \<Longrightarrow> round_half_even x \<le> n"
proof -
  assume a: "x \<le> of_int n"
  show ?thesis
  proof (cases "x = of_int n")
    case True then show ?thesis by simp
  next
    case False
    with a have "x < of_int n" by simp
    then have "\<lfloor>x\<rfloor> < n" by (simp add: floor_less_iff)
    with rhe_le_floor1 [of x] show ?thesis by linarith
  qed
qed

lemma rhe_ge_int: "of_int n \<le> x \<Longrightarrow> n \<le> round_half_even x"
proof -
  assume "of_int n \<le> x"
  then have "n \<le> \<lfloor>x\<rfloor>" by (simp add: le_floor_iff)
  with rhe_ge_floor [of x] show ?thesis by linarith
qed

lemma rhe_below_half: "x < of_int n - 1 / 2 \<Longrightarrow> round_half_even x \<le> n - 1"
proof -
  assume a: "x < of_int n - 1 / 2"
  then have "x < of_int n" by linarith
  then have f: "\<lfloor>x\<rfloor> \<le> n - 1" by (simp add: floor_less_iff)
  show ?thesis
  proof (cases "\<lfloor>x\<rfloor> = n - 1")
    case True
    then have "x - of_int \<lfloor>x\<rfloor> < 1 / 2" using a by simp
    then show ?thesis using True by (simp add: round_half_even_def Let_def)
  next
    case False
    with f have "\<lfloor>x\<rfloor> + 1 \<le> n - 1" by linarith
    with rhe_le_floor1 [of x] show ?thesis by linarith
  qed
qed

lemma rhe_above_half: "even n \<Longrightarrow> of_int n - 1 / 2 \<le> x \<Longrightarrow> n \<le> round_half_even x"
proof -
  assume e: "even n" and a: "of_int n - 1 / 2 \<le> x"
  have "of_int (n - 1) \<le> x" using a by simp
  then have f: "n - 1 \<le> \<lfloor>x\<rfloor>" by (simp add: le_floor_iff)
  show ?thesis
  proof (cases "\<lfloor>x\<rfloor> = n - 1")
    case True
    then have r: "\<not> x - of_int \<lfloor>x\<rfloor> < 1 / 2" using a by simp
    have "odd \<lfloor>x\<rfloor>" using True e by simp
    with r True show ?thesis by (simp add: round_half_even_def Let_def)
  next
    case False
    with f have "n \<le> \<lfloor>x\<rfloor>" by linarith
    with rhe_ge_floor [of x] show ?thesis by linarith
  qed
qed

lemma f64_quantum_pos [simp]: "0 < f64_quantum q"
  by (simp add: f64_quantum_def)

text \<open>numbers k * 2^j with k below 2^53 and j in range are their own rounding\<close>
lemma f64_round_exact:
  assumes k: "0 \<le> k" "k < 2 ^ 53" and j: "- 1074 \<le> j" "j \<le> 971"
  shows "f64_round (of_int k * 2 powi j) = Some (of_int k * 2 powi j)"
proof (cases "k = 0")
  case True then show ?thesis by (simp add: f64_round_def)
next
  case False
  with k have kpos: "0 < k" by simp
  define q :: rat where "q = of_int k * 2 powi j"
  have qpos: "0 < q" using kpos by (simp add: q_def)
  define e' where "e' = max (ilog2 q) (- 1022)"
  have u: "f64_quantum q = 2 powi (e' - 52)" by (simp add: f64_quantum_def e'_def)
  have klt: "(of_int k :: rat) < 2 powi 53"
  proof -
    have "(of_int k :: rat) < of_int (2 ^ 53)" using k(2) by (simp only: of_int_less_iff)
    then show ?thesis by simp
  qed
  have qlt: "q < 2 powi (53 + j)"
  proof -
    have "q < 2 powi 53 * 2 powi j" unfolding q_def using klt by simp
    then show ?thesis by (simp add: power_int_add)
  qed
  have le: "e' - 52 \<le> j"
  proof (cases "ilog2 q \<le> - 1022")
    case True then show ?thesis using j by (simp add: e'_def)
  next
    case False
    have "2 powi (ilog2 q) \<le> q" using ilog2_bounds [OF qpos] by simp
    with qlt have "(2::rat) powi (ilog2 q) < 2 powi (53 + j)" by linarith
    then have "ilog2 q < 53 + j"
      by (metis powi_mono not_le)
    with False show ?thesis by (simp add: e'_def)
  qed
  define t where "t = nat (j - (e' - 52))"
  have jt: "j = (e' - 52) + int t" using le by (simp add: t_def)
  have quot: "q / f64_quantum q = of_int (k * 2 ^ t)"
  proof -
    have "q = of_int k * (2 powi (e' - 52) * 2 powi (int t))"
      unfolding q_def by (subst jt) (simp add: power_int_add)
    then have "q / 2 powi (e' - 52) = of_int k * 2 ^ t" by simp
    then show ?thesis by (simp only: u of_int_mult of_int_power of_int_numeral)
  qed
  have v: "of_int (round_half_even (q / f64_quantum q)) * f64_quantum q = q"
  proof -
    have "of_int (round_half_even (q / f64_quantum q)) * f64_quantum q = (q / f64_quantum q) * f64_quantum q"
      by (simp only: quot rhe_of_int)
    moreover have "f64_quantum q \<noteq> 0" using f64_quantum_pos [of q] by linarith
    ultimately show ?thesis by simp
  qed
  have "q < 2 powi 1024"
  proof -
    have "(2::rat) powi (53 + j) \<le> 2 powi 1024" using j by (intro powi_mono) simp
    with qlt show ?thesis by linarith
  qed
  then show ?thesis
    using qpos v by (simp add: f64_round_def Let_def flip: q_def)
qed

lemma f64_round_int:
  assumes "\<bar>m\<bar> < 2 ^ 53"
  shows "f64_round (of_int \<bar>m\<bar>) = Some (of_int \<bar>m\<bar>)"
  using f64_round_exact [of "\<bar>m\<bar>" 0] assms by simp

subsection \<open>Overflow\<close>

lemma powi_split: "(2::rat) powi a * 2 powi (e - a) = 2 powi e"
  by (simp flip: power_int_add)

lemma f64_round_overflow:
  assumes "f64_overflow \<le> q"
  shows "f64_round q = None"
proof -
  have big: "(2::rat) powi 1023 \<le> f64_overflow"
  proof -
    have "(2::rat) powi 1024 = 2 * 2 powi 1023" using powi_Suc [of 1023] by simp
    moreover have "(2::rat) powi 970 \<le> 2 powi 1023" by (rule powi_mono) simp
    ultimately show ?thesis unfolding f64_overflow_def by linarith
  qed
  with assms have q1023: "2 powi 1023 \<le> q" by linarith
  then have qpos: "0 < q" using powi_pos [of 1023] by linarith
  define e where "e = ilog2 q"
  have eb: "2 powi e \<le> q" "q < 2 powi (e + 1)" using ilog2_bounds [OF qpos] by (simp_all add: e_def)
  have e1023: "1023 \<le> e"
  proof (rule ccontr)
    assume "\<not> 1023 \<le> e"
    then have "e + 1 \<le> 1023" by simp
    then have "(2::rat) powi (e + 1) \<le> 2 powi 1023" by (rule powi_mono)
    with eb(2) q1023 show False by linarith
  qed
  then have u: "f64_quantum q = 2 powi (e - 52)" by (simp add: f64_quantum_def e_def)
  define x where "x = q / 2 powi (e - 52)"
  have goal: "2 powi 1024 \<le> of_int (round_half_even x) * (2::rat) powi (e - 52)"
  proof (cases "e = 1023")
    case True
    have "(2::rat) powi 1024 = 2 powi 53 * 2 powi 971" by (simp flip: power_int_add)
    moreover have "(2::rat) powi 970 = (1 / 2) * 2 powi 971"
      using powi_Suc [of 970] by simp
    ultimately have "f64_overflow = (2 powi 53 - 1 / 2) * 2 powi 971"
      unfolding f64_overflow_def by (simp add: algebra_simps)
    with assms have "(2 powi 53 - 1 / 2) * 2 powi 971 \<le> q" by simp
    then have "(2::rat) powi 53 - 1 / 2 \<le> x"
      unfolding x_def True by (simp add: pos_le_divide_eq)
    then have "of_int (2 ^ 53) - 1 / 2 \<le> x" by simp
    then have "2 ^ 53 \<le> round_half_even x" by (intro rhe_above_half) simp
    then have "(of_int (2 ^ 53) :: rat) \<le> of_int (round_half_even x)" by (simp only: of_int_le_iff)
    then have "(2::rat) powi 53 * 2 powi 971 \<le> of_int (round_half_even x) * 2 powi 971"
      by simp
    then show ?thesis unfolding True by (simp flip: power_int_add)
  next
    case False
    with e1023 have e1024: "1024 \<le> e" by simp
    have "2 powi 52 * 2 powi (e - 52) \<le> q" using eb(1) powi_split [of 52 e] by linarith
    then have "(2::rat) powi 52 \<le> x" unfolding x_def by (simp add: pos_le_divide_eq)
    then have "of_int (2 ^ 52) \<le> x" by simp
    then have "2 ^ 52 \<le> round_half_even x" by (rule rhe_ge_int)
    then have "(of_int (2 ^ 52) :: rat) \<le> of_int (round_half_even x)" by (simp only: of_int_le_iff)
    then have "(2::rat) powi 52 * 2 powi (e - 52) \<le> of_int (round_half_even x) * 2 powi (e - 52)"
      by simp
    then have "(2::rat) powi e \<le> of_int (round_half_even x) * 2 powi (e - 52)"
      using powi_split [of 52 e] by linarith
    moreover have "(2::rat) powi 1024 \<le> 2 powi e" using e1024 by (rule powi_mono)
    ultimately show ?thesis by linarith
  qed
  show ?thesis
    using qpos goal by (simp add: f64_round_def Let_def u x_def)
qed

lemma f64_round_in_range:
  assumes "0 \<le> q" "q < f64_overflow"
  shows "\<exists>v. f64_round q = Some v"
proof (cases "q = 0")
  case True then show ?thesis by (simp add: f64_round_def)
next
  case False
  with assms have qpos: "0 < q" by simp
  define e where "e = max (ilog2 q) (- 1022)"
  have u: "f64_quantum q = 2 powi (e - 52)" by (simp add: f64_quantum_def e_def)
  define x where "x = q / 2 powi (e - 52)"
  have qlt: "q < 2 powi (e + 1)"
  proof -
    have "q < 2 powi (ilog2 q + 1)" using ilog2_bounds [OF qpos] by simp
    also have "\<dots> \<le> 2 powi (e + 1)" by (rule powi_mono) (simp add: e_def)
    finally show ?thesis .
  qed
  have of: "f64_overflow < 2 powi 1024" by (simp add: f64_overflow_def)
  have e1023: "e \<le> 1023"
  proof (rule ccontr)
    assume "\<not> e \<le> 1023"
    then have "1024 \<le> ilog2 q" by (simp add: e_def)
    then have "(2::rat) powi 1024 \<le> 2 powi (ilog2 q)" by (rule powi_mono)
    also have "\<dots> \<le> q" using ilog2_bounds [OF qpos] by simp
    finally show False using assms(2) of by linarith
  qed
  have goal: "of_int (round_half_even x) * (2::rat) powi (e - 52) < 2 powi 1024"
  proof (cases "e = 1023")
    case True
    have "(2::rat) powi 1024 = 2 powi 53 * 2 powi 971" by (simp flip: power_int_add)
    moreover have "(2::rat) powi 970 = (1 / 2) * 2 powi 971"
      using powi_Suc [of 970] by simp
    ultimately have ov: "f64_overflow = (2 powi 53 - 1 / 2) * 2 powi 971"
      unfolding f64_overflow_def by (simp add: algebra_simps)
    with assms have "q < (2 powi 53 - 1 / 2) * 2 powi 971" by simp
    then have "x < (2::rat) powi 53 - 1 / 2"
      unfolding x_def True by (simp add: pos_divide_less_eq)
    then have "x < of_int (2 ^ 53) - 1 / 2" by simp
    then have "round_half_even x \<le> 2 ^ 53 - 1" by (rule rhe_below_half)
    then have "(of_int (round_half_even x) :: rat) \<le> of_int (2 ^ 53 - 1)" by (simp only: of_int_le_iff)
    then have "of_int (round_half_even x) * (2::rat) powi 971 \<le> (2 powi 53 - 1) * 2 powi 971"
      by simp
    also have "\<dots> < 2 powi 53 * 2 powi 971" by simp
    also have "\<dots> = 2 powi 1024" by (simp flip: power_int_add)
    finally show ?thesis unfolding True by simp
  next
    case False
    with e1023 have e1022: "e + 1 \<le> 1023" by simp
    have "q < 2 powi 53 * 2 powi (e - 52)" using qlt powi_split [of 53 "e + 1"] by simp
    then have "x < (2::rat) powi 53" unfolding x_def by (simp add: pos_divide_less_eq)
    then have "x \<le> of_int (2 ^ 53)" by simp
    then have "round_half_even x \<le> 2 ^ 53" by (rule rhe_le_int)
    then have "(of_int (round_half_even x) :: rat) \<le> of_int (2 ^ 53)" by (simp only: of_int_le_iff)
    then have "of_int (round_half_even x) * (2::rat) powi (e - 52) \<le> 2 powi 53 * 2 powi (e - 52)"
      by simp
    also have "\<dots> = 2 powi (e + 1)" using powi_split [of 53 "e + 1"] by simp
    also have "\<dots> \<le> 2 powi 1023" using e1022 by (rule powi_mono)
    also have "\<dots> < 2 powi 1024" by (rule powi_strict_mono) simp
    finally show ?thesis .
  qed
  show ?thesis
    using qpos goal by (simp add: f64_round_def Let_def u x_def)
qed

subsection \<open>Decimal integers under ParseFloat\<close>

lemma digit_char_props:
  assumes "d < 10"
  shows "is_digit (digit_char d)" and "digit_val (digit_char d) = d" and "byte (digit_char d) = 48 + d"
  using assms by (simp_all add: is_digit_def digit_val_def digit_char_def byte_def)

lemma is_digit_byte: "is_digit c \<Longrightarrow> 48 \<le> byte c \<and> byte c \<le> 57"
  by (simp add: is_digit_def)

lemma byte_simps [simp]:
  "byte CHR ''_'' = 95" "byte CHR ''.'' = 46" "byte CHR ''+'' = 43" "byte CHR ''-'' = 45"
  "byte CHR ''i'' = 105" "byte CHR ''I'' = 73" "byte CHR ''n'' = 110" "byte CHR ''N'' = 78"
  "byte CHR ''x'' = 120" "byte CHR ''0'' = 48"
  by (simp_all add: byte_def)

lemma byte_inj: "byte c = byte d \<Longrightarrow> c = d"
  by (simp add: byte_def)

lemma is_digit_neq:
  assumes "is_digit c"
  shows "c \<noteq> CHR ''_''" "c \<noteq> CHR ''.''" "c \<noteq> CHR ''+''" "c \<noteq> CHR ''-''"
    "c \<noteq> CHR ''i''" "c \<noteq> CHR ''I''" "c \<noteq> CHR ''n''" "c \<noteq> CHR ''N''"
  using is_digit_byte [OF assms] by auto

lemma lower_digit: "is_digit c \<Longrightarrow> lower c \<noteq> CHR ''x''"
proof
  assume d: "is_digit c" and l: "lower c = CHR ''x''"
  from d have "byte c = 48 \<or> byte c = 49 \<or> byte c = 50 \<or> byte c = 51 \<or> byte c = 52
      \<or> byte c = 53 \<or> byte c = 54 \<or> byte c = 55 \<or> byte c = 56 \<or> byte c = 57"
    unfolding is_digit_def by arith
  then have "byte (lower c) < 64"
    unfolding lower_def by (auto simp: byte_def)
  with l show False by simp
qed

lemma mant_loop_digits:
  assumes "\<forall>c \<in> set ds. is_digit c" "ds \<noteq> []" "\<not> sawdot st"
  shows "mant_loop 10 ds st = (st\<lparr>sawdigits := True, mant := digits_val (mant st) ds\<rparr>, [])"
  using assms
proof (induction ds arbitrary: st)
  case Nil then show ?case by simp
next
  case (Cons c cs)
  have c: "is_digit c" using Cons.prems by simp
  note neq = is_digit_neq [OF c]
  show ?case
  proof (cases "cs = []")
    case True
    then show ?thesis using c neq Cons.prems by (simp add: digits_val_def)
  next
    case False
    let ?st = "st\<lparr>sawdigits := True, mant := mant st * 10 + int (digit_val c), frac := frac st\<rparr>"
    have "mant_loop 10 (c # cs) st = mant_loop 10 cs ?st"
      using c neq Cons.prems by simp
    also have "\<dots> = (?st\<lparr>sawdigits := True, mant := digits_val (mant ?st) cs\<rparr>, [])"
      using Cons.prems False by (intro Cons.IH) simp_all
    finally show ?thesis by (simp add: digits_val_def)
  qed
qed

lemma show_nat_digits: "\<forall>c \<in> set (show_nat n). is_digit c"
proof (induction n rule: show_nat.induct)
  case (1 n)
  show ?case
  proof (cases "n < 10")
    case True
    then show ?thesis by (subst show_nat.simps) (simp add: digit_char_props)
  next
    case False
    then show ?thesis using 1 by (subst show_nat.simps) (simp add: digit_char_props)
  qed
qed

lemma show_nat_nonempty: "show_nat n \<noteq> []"
  by (subst show_nat.simps) simp

lemma digits_val_append: "digits_val a (xs @ ys) = digits_val (digits_val a xs) ys"
  by (simp add: digits_val_def)

lemma digits_val_show_nat: "digits_val 0 (show_nat n) = int n"
proof (induction n rule: show_nat.induct)
  case (1 n)
  show ?case
  proof (cases "n < 10")
    case True
    then show ?thesis by (subst show_nat.simps) (simp add: digits_val_def digit_char_props)
  next
    case False
    then have "digits_val 0 (show_nat n) = digits_val 0 (show_nat (n div 10)) * 10 + int (n mod 10)"
      by (subst show_nat.simps) (simp add: digits_val_append, simp add: digits_val_def digit_char_props)
    also have "\<dots> = int (n div 10) * 10 + int (n mod 10)" using 1 False by simp
    also have "\<dots> = int n" by (simp add: zdiv_int zmod_int)
    finally show ?thesis .
  qed
qed

lemma hex_prefix_digits: "\<forall>c \<in> set ds. is_digit c \<Longrightarrow> \<not> hex_prefix ds"
  by (auto simp: hex_prefix_def split: list.splits dest: lower_digit)

lemma read_exponent_Nil [simp]: "read_exponent False [] = Some (0, False, [])"
  by (simp add: read_exponent_def)

lemma readFloat_digits:
  assumes "\<forall>c \<in> set ds. is_digit c" "ds \<noteq> []"
  shows "readFloat ds = Some \<lparr>lit_neg = False, lit_hex = False, lit_mant = digits_val 0 ds,
           lit_frac = 0, lit_exp = 0, lit_len = length ds\<rparr>"
proof -
  obtain c cs where ds: "ds = c # cs" using assms(2) by (cases ds) auto
  have c: "is_digit c" using assms(1) ds by simp
  note neq = is_digit_neq [OF c]
  note hex = hex_prefix_digits [OF assms(1), unfolded ds]
  note ml = mant_loop_digits [OF assms, unfolded ds]
  have "readFloat (c # cs) = Some \<lparr>lit_neg = False, lit_hex = False,
      lit_mant = digits_val 0 (c # cs), lit_frac = 0, lit_exp = 0, lit_len = length (c # cs)\<rparr>"
    unfolding readFloat_def using neq by (simp add: Let_def hex ml del: mant_loop.simps)
  then show ?thesis by (simp only: ds)
qed

lemma readFloat_minus_digits:
  assumes "\<forall>c \<in> set ds. is_digit c" "ds \<noteq> []"
  shows "readFloat (CHR ''-'' # ds) = Some \<lparr>lit_neg = True, lit_hex = False, lit_mant = digits_val 0 ds,
           lit_frac = 0, lit_exp = 0, lit_len = Suc (length ds)\<rparr>"
proof -
  note hex = hex_prefix_digits [OF assms(1)]
  show ?thesis
    unfolding readFloat_def
    by (simp add: Let_def hex mant_loop_digits [OF assms] del: mant_loop.simps)
qed

lemma cpl_digit: "is_digit c \<Longrightarrow> commonPrefixLenIgnoreCase (c # cs) (p # ps) = 0 \<or> c = p"
  by (auto simp: is_digit_def Let_def)

lemma special_digits:
  assumes "is_digit c"
  shows "special (c # cs) = None" "special (CHR ''-'' # c # cs) = None"
proof -
  note neq = is_digit_neq [OF assms]
  show "special (c # cs) = None" using neq by (simp add: special_def)
  have "commonPrefixLenIgnoreCase (c # cs) ''infinity'' = 0"
    using cpl_digit [OF assms, of cs "CHR ''i''" "''nfinity''"] neq by auto
  then show "special (CHR ''-'' # c # cs) = None" by (simp add: special_def)
qed

lemma lit_value_int [simp]:
  "lit_value \<lparr>lit_neg = s, lit_hex = False, lit_mant = k, lit_frac = 0, lit_exp = 0, lit_len = n\<rparr> = of_int k"
  by (simp add: lit_value_def)

text \<open>what ParseFloat makes of the decimal representation of an integer\<close>
lemma ParseFloat_show_int:
  "ParseFloat (show_int m) =
     (case f64_round \<bar>of_int m\<bar> of
        None \<Rightarrow> (Infinite (m < 0), Some (rangeError (show_int m)))
      | Some v \<Rightarrow> (Finite (m < 0) v, None))"
proof (cases "m < 0")
  case True
  let ?ds = "show_nat (nat (- m))"
  obtain c cs where ds: "?ds = c # cs" using show_nat_nonempty [of "nat (- m)"] by (cases ?ds) auto
  have c: "is_digit c" using show_nat_digits [of "nat (- m)"] ds by simp
  have sp: "special (CHR ''-'' # ?ds) = None" unfolding ds by (rule special_digits(2) [OF c])
  have rf: "readFloat (CHR ''-'' # ?ds) = Some \<lparr>lit_neg = True, lit_hex = False,
      lit_mant = - m, lit_frac = 0, lit_exp = 0, lit_len = Suc (length ?ds)\<rparr>"
    using readFloat_minus_digits [OF show_nat_digits show_nat_nonempty, of "nat (- m)"] True
    by (simp add: digits_val_show_nat)
  have abs: "\<bar>m\<bar> = - m" using True by simp
  show ?thesis
    using True
    by (simp add: show_int_def ParseFloat_def atof64_def sp rf abs rangeError_def syntaxError_def
        split: option.splits)
next
  case False
  let ?ds = "show_nat (nat m)"
  obtain c cs where ds: "?ds = c # cs" using show_nat_nonempty [of "nat m"] by (cases ?ds) auto
  have c: "is_digit c" using show_nat_digits [of "nat m"] ds by simp
  have sp: "special ?ds = None" unfolding ds by (rule special_digits(1) [OF c])
  have rf: "readFloat ?ds = Some \<lparr>lit_neg = False, lit_hex = False,
      lit_mant = m, lit_frac = 0, lit_exp = 0, lit_len = length ?ds\<rparr>"
    using readFloat_digits [OF show_nat_digits show_nat_nonempty, of "nat m"] False
    by (simp add: digits_val_show_nat)
  have abs: "\<bar>m\<bar> = m" using False by simp
  show ?thesis
    using False
    by (simp add: show_int_def ParseFloat_def atof64_def sp rf abs rangeError_def syntaxError_def
        split: option.splits)
qed

subsection \<open>Trimming, and the error of ParseFloat\<close>

lemma unicode_spaces_high:
  "list_all (\<lambda>u. u \<noteq> [] \<and> 128 \<le> byte (hd u) \<and> 128 \<le> byte (last u)) unicode_spaces"
  by code_simp

lemma space_prefix_ascii:
  assumes "byte c < 128" "\<not> ascii_space c"
  shows "space_prefix (c # cs) = 0"
proof -
  have "filter (\<lambda>u. take (length u) (c # cs) = u) unicode_spaces = []"
  proof (rule filter_False, rule ballI, rule notI)
    fix u assume u: "u \<in> set unicode_spaces" and t: "take (length u) (c # cs) = u"
    from u unicode_spaces_high have hu: "u \<noteq> []" "128 \<le> byte (hd u)"
      by (auto simp: list_all_iff)
    then obtain a as where "u = a # as" by (cases u) auto
    with t have "a = c" by simp
    with hu \<open>u = a # as\<close> assms(1) show False by simp
  qed
  then show ?thesis using assms(2) by (simp add: space_prefix_def)
qed

lemma space_suffix_ascii:
  assumes "s \<noteq> []" "byte (last s) < 128" "\<not> ascii_space (last s)"
  shows "space_suffix s = 0"
proof -
  have "filter (\<lambda>u. length u \<le> length s \<and> drop (length s - length u) s = u) unicode_spaces = []"
  proof (rule filter_False, rule ballI, rule notI)
    fix u assume u: "u \<in> set unicode_spaces"
      and t: "length u \<le> length s \<and> drop (length s - length u) s = u"
    from u unicode_spaces_high have hu: "u \<noteq> []" "128 \<le> byte (last u)"
      by (auto simp: list_all_iff)
    have "last u = last (drop (length s - length u) s)" using t by simp
    also have "\<dots> = last s" using hu(1) t assms(1) by (intro last_drop) (cases u, auto)
    finally show False using hu(2) assms(2) by simp
  qed
  then show ?thesis using assms by (simp add: space_suffix_def)
qed

lemma TrimSpace_id:
  assumes "s \<noteq> []" "byte (hd s) < 128" "\<not> ascii_space (hd s)"
    "byte (last s) < 128" "\<not> ascii_space (last s)"
  shows "TrimSpace s = s"
proof -
  obtain c cs where s: "s = c # cs" using assms(1) by (cases s) auto
  have "space_prefix s = 0" unfolding s using assms(2,3) s by (intro space_prefix_ascii) simp_all
  then have l: "TrimLeft_space s = s" by (subst TrimLeft_space.simps) simp
  have "space_suffix s = 0" using assms by (intro space_suffix_ascii)
  then have "TrimRight_space s = s" by (subst TrimRight_space.simps) simp
  with l show ?thesis by (simp add: TrimSpace_def)
qed

lemma digit_not_space: "is_digit c \<Longrightarrow> byte c < 128 \<and> \<not> ascii_space c"
  by (auto simp: is_digit_def ascii_space_def)

lemma TrimSpace_show_int: "TrimSpace (show_int m) = show_int m"
proof -
  let ?n = "nat \<bar>m\<bar>"
  have ne: "show_nat ?n \<noteq> []" by (rule show_nat_nonempty)
  have dl: "is_digit (last (show_nat ?n))" and dh: "is_digit (hd (show_nat ?n))"
    using show_nat_digits [of ?n] ne by (simp_all)
  have sm: "show_int m = (if m < 0 then CHR ''-'' # show_nat ?n else show_nat ?n)"
    by (auto simp: show_int_def intro: arg_cong [where f = show_nat])
  have minus: "byte CHR ''-'' < 128 \<and> \<not> ascii_space CHR ''-''" by (simp add: ascii_space_def)
  show ?thesis
    by (rule TrimSpace_id) (use ne dl dh minus digit_not_space in \<open>auto simp: sm\<close>)
qed

lemma range_neq_syntax [simp]: "rangeError s \<noteq> syntaxError s"
  by (simp add: rangeError_def syntaxError_def)

text \<open>the error of ParseFloat, by the shape of its argument\<close>
lemma ParseFloat_error:
  "snd (ParseFloat s) =
     (if \<not> float_literal s then Some (syntaxError s)
      else if literal_overflows s then Some (rangeError s) else None)"
  by (auto simp: ParseFloat_def atof64_def float_literal_def literal_overflows_def
      split: option.splits prod.splits)

lemma getCPUTemperature_read:
  assumes "read_file e cpuTempFilePath = Inr data"
  shows "getCPUTemperature e =
     (case ParseFloat (TrimSpace data) of
        (tempVal, Some er) \<Rightarrow>
          Inl (Errorf parse_failed er)
      | (tempVal, None) \<Rightarrow> Inr (f64_div tempVal (Finite False 1000)))"
  using assms by (simp add: getCPUTemperature_def)

lemma getCPUTemperature_decimal:
  assumes "read_file e cpuTempFilePath = Inr data" "TrimSpace data = show_int m"
    "\<bar>of_int m\<bar> < f64_overflow"
  shows "getCPUTemperature e = Inr (f64_div (f64_of_int m) (Finite False 1000))"
proof -
  obtain v where v: "f64_round \<bar>of_int m\<bar> = Some v"
    using f64_round_in_range [of "\<bar>of_int m\<bar>"] assms(3) by auto
  show ?thesis
    by (simp add: getCPUTemperature_read [OF assms(1)] assms(2) ParseFloat_show_int v
        f64_of_int_def f64_make_def)
qed

lemma getCPUTemperature_decimal_overflow:
  assumes "read_file e cpuTempFilePath = Inr data" "TrimSpace data = show_int m"
    "f64_overflow \<le> \<bar>of_int m\<bar>"
  shows "getCPUTemperature e =
    Inl (Errorf parse_failed (rangeError (show_int m)))"
  by (simp add: getCPUTemperature_read [OF assms(1)] assms(2) ParseFloat_show_int
      f64_round_overflow [OF assms(3)])

subsection \<open>A trailing newline\<close>

lemma TrimRight_space_nl:
  assumes "s \<noteq> []" "byte (last s) < 128" "\<not> ascii_space (last s)"
  shows "TrimRight_space (s @ nl) = s"
proof -
  have sfx: "space_suffix (s @ nl) = 1"
    by (simp add: space_suffix_def nl_def ascii_space_def byte_def)
  have "TrimRight_space (s @ nl) = TrimRight_space s"
    by (subst TrimRight_space.simps) (simp add: sfx, simp add: nl_def)
  also have "\<dots> = s"
    using space_suffix_ascii [OF assms] by (subst TrimRight_space.simps) simp
  finally show ?thesis .
qed

lemma TrimSpace_nl:
  assumes "s \<noteq> []" "byte (hd s) < 128" "\<not> ascii_space (hd s)"
    "byte (last s) < 128" "\<not> ascii_space (last s)"
  shows "TrimSpace (s @ nl) = s"
proof -
  obtain c cs where s: "s = c # cs" using assms(1) by (cases s) auto
  have "space_prefix (s @ nl) = 0"
    unfolding s using assms(2,3) s by (simp add: space_prefix_ascii)
  then have "TrimLeft_space (s @ nl) = s @ nl" by (subst TrimLeft_space.simps) simp
  then show ?thesis using TrimRight_space_nl [OF assms(1,4,5)] by (simp add: TrimSpace_def)
qed

lemma show_int_ends:
  "show_int m \<noteq> []" "byte (hd (show_int m)) < 128" "\<not> ascii_space (hd (show_int m))"
  "byte (last (show_int m)) < 128" "\<not> ascii_space (last (show_int m))"
proof -
  let ?n = "nat \<bar>m\<bar>"
  have ne: "show_nat ?n \<noteq> []" by (rule show_nat_nonempty)
  have dl: "is_digit (last (show_nat ?n))" and dh: "is_digit (hd (show_nat ?n))"
    using show_nat_digits [of ?n] ne by (simp_all)
  have sm: "show_int m = (if m < 0 then CHR ''-'' # show_nat ?n else show_nat ?n)"
    by (auto simp: show_int_def intro: arg_cong [where f = show_nat])
  have minus: "byte CHR ''-'' < 128 \<and> \<not> ascii_space CHR ''-''" by (simp add: ascii_space_def)
  show "show_int m \<noteq> []" "byte (hd (show_int m)) < 128" "\<not> ascii_space (hd (show_int m))"
  "byte (last (show_int m)) < 128" "\<not> ascii_space (last (show_int m))"
    using ne dl dh minus digit_not_space by (auto simp: sm)
qed

lemma TrimSpace_show_int_nl: "TrimSpace (show_int m @ nl) = show_int m"
  by (rule TrimSpace_nl) (rule show_int_ends)+

lemma getCPUTemperature_60:
  "getCPUTemperature (sensor_env (show_int 60000 @ nl) r) = Inr (Finite False 60)"
proof -
  have a: "read_file (sensor_env (show_int 60000 @ nl) r) cpuTempFilePath = Inr (show_int 60000 @ nl)"
    by (simp add: sensor_env_def)
  have c: "\<bar>of_int 60000\<bar> < f64_overflow" by (simp add: f64_overflow_def)
  have d: "f64_of_int 60000 = Finite False 60000"
    using f64_round_int [of 60000] by (simp add: f64_of_int_def f64_make_def)
  have e: "f64_make False 60 = Finite False 60"
    using f64_round_exact [of 60 0] by (simp add: f64_make_def)
  show ?thesis
    using getCPUTemperature_decimal [OF a TrimSpace_show_int_nl c] by (simp add: d e)
qed

section \<open>The claims\<close>

subsection \<open>C1: the threshold rule\<close>

lemma compare_cases:
  assumes "getCPUTemperature e = Inr r"
  shows "new_log w (compareTemperatures cfg e w) =
     (''Current CPU temperature: %.2f'' @ degC) #
       (if f64_gt r (TempThreshold cfg)
        then alert_line # tl (tl (new_log w (compareTemperatures cfg e w))) else [])"
    and "\<not> f64_gt r (TempThreshold cfg) \<Longrightarrow> new_runs w (compareTemperatures cfg e w) = []"
  using assms
  by (auto simp: compareTemperatures_def sendEmail_def logf_def new_log_def new_runs_def Let_def
      split: run_result.splits)

lemma f64_eq_not_gt: "f64_eq x y \<Longrightarrow> \<not> f64_gt x y"
  by (cases x; cases y) auto

text \<open>
  Claim C1. For every reading \<open>r\<close> the sensor yields and every threshold of the
  configuration, \<open>compareTemperatures\<close> takes the alert branch (it logs the \<open>ALERT\<close> line)
  if and only if \<open>r > threshold\<close> in Go's float64 comparison. When \<open>r == threshold\<close> there
  is no alert and no subprocess is run.
\<close>

theorem compareTemperatures_alert_iff_greater:
  assumes "getCPUTemperature e = Inr r"
  shows "(alert_line \<in> set (new_log w (compareTemperatures cfg e w))) = f64_gt r (TempThreshold cfg)
    \<and> (f64_eq r (TempThreshold cfg) \<longrightarrow>
          alert_line \<notin> set (new_log w (compareTemperatures cfg e w))
          \<and> new_runs w (compareTemperatures cfg e w) = [])"
proof -
  have a: "(alert_line \<in> set (new_log w (compareTemperatures cfg e w))) = f64_gt r (TempThreshold cfg)"
    by (subst compare_cases(1) [OF assms]) (simp add: alert_line_def degC_def)
  show ?thesis
    using a compare_cases(2) [OF assms] f64_eq_not_gt by blast
qed

theorem compareTemperatures_alert_iff_greater_witness:
  "getCPUTemperature (sensor_env (show_int 60000 @ nl) RunOK) = Inr (Finite False 60)
   \<and> f64_eq (Finite False 60) (TempThreshold alice_cfg)
   \<and> alert_line \<notin> set (new_log empty_world
        (compareTemperatures alice_cfg (sensor_env (show_int 60000 @ nl) RunOK) empty_world))
   \<and> new_runs empty_world
        (compareTemperatures alice_cfg (sensor_env (show_int 60000 @ nl) RunOK) empty_world) = []"
proof -
  have t: "TempThreshold alice_cfg = Finite False 60" by (simp add: alice_cfg_def default_flags_def)
  have g: "getCPUTemperature (sensor_env (show_int 60000 @ nl) RunOK) = Inr (Finite False 60)"
    by (rule getCPUTemperature_60)
  show ?thesis
    using compareTemperatures_alert_iff_greater [OF g, of empty_world alice_cfg]
    by (simp add: g t)
qed

subsection \<open>C2: the reading of a decimal integer\<close>

lemma f64_of_int_exact:
  assumes "\<bar>m\<bar> < 2 ^ 53"
  shows "f64_of_int m = Finite (m < 0) \<bar>of_int m\<bar>"
  using f64_round_int [OF assms] by (simp add: f64_of_int_def f64_make_def)

lemma pow10_309_overflows: "f64_overflow \<le> \<bar>of_int (10 ^ 309)\<bar>"
  by (simp add: f64_overflow_def)

text \<open>
  Claim C2, as stated, fails for integers beyond the range of float64: the sensor value is
  parsed as a float64, and for the integer \<open>10^309\<close> (a one and 309 zeros, then a newline,
  in the file) the parse reports a range error, so \<open>getCPUTemperature\<close> fails.
\<close>

theorem getCPUTemperature_huge_integer_fails:
  "TrimSpace (show_int (10 ^ 309) @ nl) = show_int (10 ^ 309)
   \<and> getCPUTemperature (sensor_env (show_int (10 ^ 309) @ nl) RunOK)
       = Inl (Errorf parse_failed (rangeError (show_int (10 ^ 309))))"
proof -
  have a: "read_file (sensor_env (show_int (10 ^ 309) @ nl) RunOK) cpuTempFilePath
      = Inr (show_int (10 ^ 309) @ nl)"
    by (simp add: sensor_env_def)
  show ?thesis
    using getCPUTemperature_decimal_overflow [OF a TrimSpace_show_int_nl pow10_309_overflows]
      TrimSpace_show_int_nl [of "10 ^ 309"]
    by simp
qed

text \<open>
  Claim C2, amended. For every integer \<open>m\<close> of magnitude below \<open>2^1024 - 2^970\<close> (the
  numbers that round to a finite float64), when the trimmed content of the sensor file is
  the decimal representation of \<open>m\<close>, \<open>getCPUTemperature\<close> succeeds and returns the
  float64 quotient of \<open>float64(m)\<close> by \<open>1000.0\<close>; for \<open>|m| < 2^53\<close> that is the float64
  nearest to \<open>m / 1000\<close>. For an integer of larger magnitude it fails with the range
  error of the parse.
\<close>

theorem getCPUTemperature_decimal_integer:
  assumes "read_file e cpuTempFilePath = Inr data" "TrimSpace data = show_int m"
    and "\<bar>of_int m\<bar> < f64_overflow"
    and "read_file e' cpuTempFilePath = Inr data'" "TrimSpace data' = show_int m'"
    and "f64_overflow \<le> \<bar>of_int m'\<bar>"
  shows "getCPUTemperature e = Inr (f64_div (f64_of_int m) (Finite False 1000))
    \<and> (\<bar>m\<bar> < 2 ^ 53 \<longrightarrow> getCPUTemperature e = Inr (f64_make (m < 0) (\<bar>of_int m\<bar> / 1000)))
    \<and> getCPUTemperature e' = Inl (Errorf parse_failed (rangeError (show_int m')))"
proof -
  have a: "getCPUTemperature e = Inr (f64_div (f64_of_int m) (Finite False 1000))"
    by (rule getCPUTemperature_decimal [OF assms(1,2,3)])
  have b: "getCPUTemperature e = Inr (f64_make (m < 0) (\<bar>of_int m\<bar> / 1000))" if "\<bar>m\<bar> < 2 ^ 53"
    using a f64_of_int_exact [OF that] by simp
  have c: "getCPUTemperature e' = Inl (Errorf parse_failed (rangeError (show_int m')))"
    by (rule getCPUTemperature_decimal_overflow [OF assms(4,5,6)])
  show ?thesis using a b c by blast
qed

theorem getCPUTemperature_decimal_integer_witness:
  "read_file (sensor_env (show_int 60000 @ nl) RunOK) cpuTempFilePath = Inr (show_int 60000 @ nl)
   \<and> TrimSpace (show_int 60000 @ nl) = show_int 60000
   \<and> \<bar>of_int 60000\<bar> < f64_overflow \<and> \<bar>60000 :: int\<bar> < 2 ^ 53
   \<and> read_file (sensor_env (show_int (10 ^ 309) @ nl) RunOK) cpuTempFilePath
       = Inr (show_int (10 ^ 309) @ nl)
   \<and> TrimSpace (show_int (10 ^ 309) @ nl) = show_int (10 ^ 309)
   \<and> f64_overflow \<le> \<bar>of_int (10 ^ 309)\<bar>
   \<and> getCPUTemperature (sensor_env (show_int 60000 @ nl) RunOK)
       = Inr (f64_div (f64_of_int 60000) (Finite False 1000))
   \<and> getCPUTemperature (sensor_env (show_int 60000 @ nl) RunOK)
       = Inr (f64_make (60000 < (0::int)) (\<bar>of_int 60000\<bar> / 1000))
   \<and> getCPUTemperature (sensor_env (show_int (10 ^ 309) @ nl) RunOK)
       = Inl (Errorf parse_failed (rangeError (show_int (10 ^ 309))))"
proof -
  have h1: "read_file (sensor_env (show_int 60000 @ nl) RunOK) cpuTempFilePath
      = Inr (show_int 60000 @ nl)"
    by (simp add: sensor_env_def)
  have h2: "TrimSpace (show_int 60000 @ nl) = show_int 60000" by (rule TrimSpace_show_int_nl)
  have h3: "\<bar>of_int 60000\<bar> < f64_overflow" by (simp add: f64_overflow_def)
  have h4: "read_file (sensor_env (show_int (10 ^ 309) @ nl) RunOK) cpuTempFilePath
       = Inr (show_int (10 ^ 309) @ nl)"
    by (simp add: sensor_env_def)
  have h5: "TrimSpace (show_int (10 ^ 309) @ nl) = show_int (10 ^ 309)"
    by (rule TrimSpace_show_int_nl)
  have h6: "f64_overflow \<le> \<bar>of_int (10 ^ 309)\<bar>" by (rule pow10_309_overflows)
  have h7: "\<bar>60000 :: int\<bar> < 2 ^ 53" by simp
  have "getCPUTemperature (sensor_env (show_int 60000 @ nl) RunOK)
       = Inr (f64_div (f64_of_int 60000) (Finite False 1000))
    \<and> (\<bar>60000 :: int\<bar> < 2 ^ 53 \<longrightarrow> getCPUTemperature (sensor_env (show_int 60000 @ nl) RunOK)
          = Inr (f64_make (60000 < (0::int)) (\<bar>of_int 60000\<bar> / 1000)))
    \<and> getCPUTemperature (sensor_env (show_int (10 ^ 309) @ nl) RunOK)
       = Inl (Errorf parse_failed (rangeError (show_int (10 ^ 309))))"
    by (rule getCPUTemperature_decimal_integer [OF h1 h2 h3 h4 h5 h6])
  then show ?thesis using h1 h2 h3 h4 h5 h6 h7 by blast
qed

subsection \<open>C3: what fails to parse\<close>

lemma readFloat_42000_5:
  "readFloat ''42000.5'' = Some \<lparr>lit_neg = False, lit_hex = False, lit_mant = 420005,
     lit_frac = 1, lit_exp = 0, lit_len = 7\<rparr>"
  by code_simp

lemma special_42000_5: "special ''42000.5'' = None"
  by code_simp

lemma ParseFloat_42000_5: "ParseFloat ''42000.5'' = (Finite False (84001 / 2), None)"
proof -
  have v: "lit_value \<lparr>lit_neg = False, lit_hex = False, lit_mant = 420005,
     lit_frac = Suc 0, lit_exp = 0, lit_len = 7\<rparr> = 84001 / 2"
    by (simp add: lit_value_def)
  have r: "f64_round (84001 / 2) = Some (84001 / 2)"
    using f64_round_exact [of 84001 "- 1"] by simp
  show ?thesis
    by (simp add: ParseFloat_def atof64_def special_42000_5 readFloat_42000_5 v r)
qed

lemma TrimSpace_42000_5: "TrimSpace (''42000.5'' @ nl) = ''42000.5''"
  by (rule TrimSpace_nl) (simp_all add: byte_def ascii_space_def)

text \<open>
  Claim C3, as stated, fails: the sensor value is parsed with \<open>strconv.ParseFloat\<close>, and
  the content \<open>42000.5\<close> (then a newline), which is not an integer, is parsed rather than
  rejected: \<open>getCPUTemperature\<close> returns the float64 nearest to \<open>42.0005\<close>.
\<close>

theorem getCPUTemperature_accepts_fraction:
  "TrimSpace (''42000.5'' @ nl) = ''42000.5''
   \<and> getCPUTemperature (sensor_env (''42000.5'' @ nl) RunOK) = Inr (f64_make False (84001 / 2000))"
proof -
  have a: "read_file (sensor_env (''42000.5'' @ nl) RunOK) cpuTempFilePath = Inr (''42000.5'' @ nl)"
    by (simp add: sensor_env_def)
  have "getCPUTemperature (sensor_env (''42000.5'' @ nl) RunOK) =
      (case ParseFloat (TrimSpace (''42000.5'' @ nl)) of
         (tempVal, Some er) \<Rightarrow> Inl (Errorf parse_failed er)
       | (tempVal, None) \<Rightarrow> Inr (f64_div tempVal (Finite False 1000)))"
    by (rule getCPUTemperature_read [OF a])
  also have "\<dots> = (case ParseFloat ''42000.5'' of
         (tempVal, Some er) \<Rightarrow> Inl (Errorf parse_failed er)
       | (tempVal, None) \<Rightarrow> Inr (f64_div tempVal (Finite False 1000)))"
    by (simp only: TrimSpace_42000_5)
  also have "\<dots> = Inr (f64_make False (84001 / 2000))"
    by (simp add: ParseFloat_42000_5)
  finally show ?thesis using TrimSpace_42000_5 by blast
qed

lemma float_literal_show_int: "float_literal (show_int m)"
proof (rule ccontr)
  assume "\<not> float_literal (show_int m)"
  then have "snd (ParseFloat (show_int m)) = Some (syntaxError (show_int m))"
    by (simp add: ParseFloat_error)
  then show False
    by (simp add: ParseFloat_show_int syntaxError_def rangeError_def split: option.splits)
qed

text \<open>
  Claim C3, amended. For every readable content of the sensor file, \<open>getCPUTemperature\<close>
  fails with a parse error exactly when \<open>strconv.ParseFloat\<close> rejects the trimmed
  content: with a syntax error when the content is not, as a whole, a floating-point
  literal (decimal or hexadecimal, with optional sign, fraction, exponent and underscores
  between digits), an infinity or a NaN, and with a range error when it is a literal whose
  value rounds beyond the largest float64. Otherwise it returns the value parsed, divided
  by \<open>1000.0\<close>. The decimal representation of every integer is such a literal.
\<close>

theorem getCPUTemperature_parse_error_iff:
  assumes "read_file e cpuTempFilePath = Inr s"
  shows "getCPUTemperature e =
     (if \<not> float_literal (TrimSpace s)
        then Inl (Errorf parse_failed (syntaxError (TrimSpace s)))
      else if literal_overflows (TrimSpace s)
        then Inl (Errorf parse_failed (rangeError (TrimSpace s)))
      else Inr (f64_div (fst (ParseFloat (TrimSpace s))) (Finite False 1000)))
    \<and> float_literal (show_int m)"
proof -
  obtain v er where p: "ParseFloat (TrimSpace s) = (v, er)" by (cases "ParseFloat (TrimSpace s)")
  have er: "er = (if \<not> float_literal (TrimSpace s) then Some (syntaxError (TrimSpace s))
      else if literal_overflows (TrimSpace s) then Some (rangeError (TrimSpace s)) else None)"
    using ParseFloat_error [of "TrimSpace s"] p by simp
  show ?thesis
    using er by (simp add: getCPUTemperature_read [OF assms] p float_literal_show_int)
qed

theorem getCPUTemperature_parse_error_iff_witness:
  "read_file (sensor_env ''4 2'' RunOK) cpuTempFilePath = Inr ''4 2''
   \<and> getCPUTemperature (sensor_env ''4 2'' RunOK) =
     (if \<not> float_literal (TrimSpace ''4 2'')
        then Inl (Errorf parse_failed (syntaxError (TrimSpace ''4 2'')))
      else if literal_overflows (TrimSpace ''4 2'')
        then Inl (Errorf parse_failed (rangeError (TrimSpace ''4 2'')))
      else Inr (f64_div (fst (ParseFloat (TrimSpace ''4 2''))) (Finite False 1000)))
   \<and> float_literal (show_int 42)"
proof -
  have h: "read_file (sensor_env ''4 2'' RunOK) cpuTempFilePath = Inr ''4 2''"
    by (simp add: sensor_env_def)
  show ?thesis
    using getCPUTemperature_parse_error_iff [OF h, of 42] h by blast
qed

subsection \<open>C4: what changes the configuration\<close>

lemma showConfiguration_cfg: "\<exists>w'. showConfiguration cfg w = (shown cfg, w')"
  by (simp add: showConfiguration_def Let_def shown_def)

text \<open>
  Claim C4, as stated, fails: showing the configuration changes it. With no
  \<open>-recipient\<close> flag the recipient is empty when the configuration is built, and
  \<open>showConfiguration\<close> stores the sentinel in it.
\<close>

theorem showConfiguration_mutates_recipient:
  "EmailRecipient default_flags = []
   \<and> EmailRecipient (fst (showConfiguration default_flags empty_world)) = ''<none>''
   \<and> fst (showConfiguration default_flags empty_world) \<noteq> default_flags"
  by (simp add: showConfiguration_def default_flags_def Let_def noEmailRecipient_def)

text \<open>
  Claim C4, amended. The one change to the configuration after it is built is made by
  \<open>showConfiguration\<close>, which replaces an empty recipient by the sentinel and leaves every
  other field, and a recipient that is not empty, as they were. Everything that runs
  later (the test email, the evaluation cycles, sending mail, the loop) receives the
  configuration by value: the variable of \<open>main\<close> holds at the end what
  \<open>showConfiguration\<close> left in it (or, when validation of the mail command ended the
  process before, what was built).
\<close>

theorem config_changed_only_by_showConfiguration:
  "fst (showConfiguration cfg w) = shown cfg
   \<and> TempThreshold (shown cfg) = TempThreshold cfg
   \<and> CheckInterval (shown cfg) = CheckInterval cfg
   \<and> TestEmailFlag (shown cfg) = TestEmailFlag cfg
   \<and> Hostname (shown cfg) = Hostname cfg
   \<and> EmailRecipient (shown cfg) = (if EmailRecipient cfg = [] then noEmailRecipient else EmailRecipient cfg)
   \<and> p_cfg (main su e0 evs) =
       (if validateMailCommand (os_stat su) mailCommand \<noteq> None
        then (flags su)\<lparr>Hostname := getHostname (os_hostname su)\<rparr>
        else shown ((flags su)\<lparr>Hostname := getHostname (os_hostname su)\<rparr>))"
proof -
  let ?cfg0 = "(flags su)\<lparr>Hostname := getHostname (os_hostname su)\<rparr>"
  obtain w2 where sc: "showConfiguration ?cfg0
      (logf (appPrefix @ '' Configuration'') (hello \<lparr>log = [], runs = [], status = Running\<rparr>)) =
      (shown ?cfg0, w2)"
    using showConfiguration_cfg by blast
  have m: "p_cfg (main su e0 evs) =
       (if validateMailCommand (os_stat su) mailCommand \<noteq> None then ?cfg0 else shown ?cfg0)"
    by (simp add: main_def Let_def sc goodbye_def case_prod_beta split: option.splits)
  obtain w' where "showConfiguration cfg w = (shown cfg, w')"
    using showConfiguration_cfg by blast
  then have f: "fst (showConfiguration cfg w) = shown cfg" by simp
  show ?thesis
    using m f by (simp add: shown_def)
qed

subsection \<open>C5: no recipient, no mail\<close>

text \<open>
  Claim C5. For every subject and body, when the recipient is the sentinel \<open><none>\<close>,
  \<open>sendEmail\<close> returns \<open>nil\<close> and runs no subprocess.
\<close>

theorem sendEmail_no_recipient:
  assumes "EmailRecipient cfg = noEmailRecipient"
  shows "fst (sendEmail cfg subject body e w) = None
    \<and> runs (snd (sendEmail cfg subject body e w)) = runs w"
  using assms by (simp add: sendEmail_def logf_def)

theorem sendEmail_no_recipient_witness:
  "EmailRecipient (alice_cfg\<lparr>EmailRecipient := noEmailRecipient\<rparr>) = noEmailRecipient
   \<and> fst (sendEmail (alice_cfg\<lparr>EmailRecipient := noEmailRecipient\<rparr>) ''s;1'' ''body''
            (no_sensor_env RunOK) empty_world) = None
   \<and> runs (snd (sendEmail (alice_cfg\<lparr>EmailRecipient := noEmailRecipient\<rparr>) ''s;1'' ''body''
            (no_sensor_env RunOK) empty_world)) = runs empty_world"
  using sendEmail_no_recipient [of "alice_cfg\<lparr>EmailRecipient := noEmailRecipient\<rparr>"
      "''s;1''" "''body''" "no_sensor_env RunOK" empty_world]
  by simp

subsection \<open>C6: semicolons are removed\<close>

lemma ReplaceAll_semicolon: "ReplaceAll s '';'' [] = filter (\<lambda>c. c \<noteq> CHR '';'') s"
proof (induction s)
  case Nil
  show ?case by (subst ReplaceAll.simps) simp
next
  case (Cons c cs)
  show ?case
    by (subst ReplaceAll.simps) (simp add: Cons.IH)
qed

text \<open>
  Claim C6. Whatever the subject and the recipient are, the mail subprocess that
  \<open>sendEmail\<close> runs receives the arguments \<open>-s\<close>, the subject with every \<open>;\<close> deleted, and
  the recipient with every \<open>;\<close> deleted. (With the sentinel recipient nothing is run.)
\<close>

theorem sendEmail_strips_semicolons:
  assumes "EmailRecipient cfg \<noteq> noEmailRecipient"
  shows "runs (snd (sendEmail cfg subject body e w)) =
     runs w @ [\<lparr>argv = [mailCommand, ''-s'', filter (\<lambda>c. c \<noteq> CHR '';'') subject,
                         filter (\<lambda>c. c \<noteq> CHR '';'') (EmailRecipient cfg)],
                 stdin = body\<rparr>]"
  using assms
  by (simp add: sendEmail_def logf_def Let_def ReplaceAll_semicolon split: run_result.splits)

theorem sendEmail_strips_semicolons_witness:
  "EmailRecipient (alice_cfg\<lparr>EmailRecipient := ''a;b@c;d''\<rparr>) \<noteq> noEmailRecipient
   \<and> runs (snd (sendEmail (alice_cfg\<lparr>EmailRecipient := ''a;b@c;d''\<rparr>) '';x;;y;'' ''body''
        (no_sensor_env RunOK) empty_world)) =
     [\<lparr>argv = [''/usr/bin/mail'', ''-s'', ''xy'', ''ab@cd''], stdin = ''body''\<rparr>]"
  using sendEmail_strips_semicolons [of "alice_cfg\<lparr>EmailRecipient := ''a;b@c;d''\<rparr>"
      "'';x;;y;''" "''body''" "no_sensor_env RunOK" empty_world]
  by (simp add: noEmailRecipient_def empty_world_def mailCommand_def)

subsection \<open>C7: validation of the mail command\<close>

lemma IsRegular_not_IsDir: "IsRegular m \<Longrightarrow> \<not> IsDir m"
proof -
  assume "IsRegular m"
  then have z: "m AND ModeType = 0" by (simp add: IsRegular_def)
  have "ModeType AND ModeDir = ModeDir"
    by (simp add: ModeType_def ModeDir_def ModeSymlink_def ModeNamedPipe_def ModeSocket_def
        ModeDevice_def ModeCharDevice_def ModeIrregular_def)
  then have "m AND ModeDir = (m AND ModeType) AND ModeDir"
    by (simp add: and.assoc)
  with z show ?thesis by (simp add: IsDir_def)
qed

text \<open>
  Claim C7. \<open>validateMailCommand\<close> returns an error when the path does not exist, when
  it is a directory, and when none of its executable permission bits is set; it returns
  \<open>nil\<close> when the path exists, is a regular file and has an executable bit set.
\<close>

theorem validateMailCommand_cases:
  assumes "stat1 p = Inl e1" "errors_Is e1 ErrNotExist"
    and "stat2 p = Inr m2" "IsDir m2"
    and "stat3 p = Inr m3" "m3 AND 0x49 = 0"
    and "stat4 p = Inr m4" "IsRegular m4" "m4 AND 0x49 \<noteq> 0"
  shows "(\<exists>er. validateMailCommand stat1 p = Some er \<and> errors_Is er ErrNotExist)
    \<and> (\<exists>er. validateMailCommand stat2 p = Some er \<and> errors_Is er errIsDirectory)
    \<and> (\<exists>er. validateMailCommand stat3 p = Some er)
    \<and> validateMailCommand stat4 p = None"
  using assms IsRegular_not_IsDir [of m4]
  by (simp add: validateMailCommand_def)

theorem validateMailCommand_cases_witness:
  "errors_Is (OSError ''no such file or directory'' (Some ErrNotExist)) ErrNotExist
   \<and> IsDir (ModeDir OR 0x1ED) \<and> (0x1A4 :: FileMode) AND 0x49 = 0
   \<and> IsRegular 0x1ED \<and> (0x1ED :: FileMode) AND 0x49 \<noteq> 0
   \<and> (\<exists>er. validateMailCommand (stat_as (Inl (OSError ''no such file or directory'' (Some ErrNotExist))))
              mailCommand = Some er \<and> errors_Is er ErrNotExist)
   \<and> (\<exists>er. validateMailCommand (stat_as (Inr (ModeDir OR 0x1ED))) mailCommand = Some er
              \<and> errors_Is er errIsDirectory)
   \<and> (\<exists>er. validateMailCommand (stat_as (Inr 0x1A4)) mailCommand = Some er)
   \<and> validateMailCommand (stat_as (Inr 0x1ED)) mailCommand = None"
proof -
  have h1: "stat_as (Inl (OSError ''no such file or directory'' (Some ErrNotExist))) mailCommand
      = Inl (OSError ''no such file or directory'' (Some ErrNotExist))"
    by (simp add: stat_as_def)
  have h2: "errors_Is (OSError ''no such file or directory'' (Some ErrNotExist)) ErrNotExist" by simp
  have h3: "stat_as (Inr (ModeDir OR 0x1ED)) mailCommand = Inr (ModeDir OR 0x1ED)"
    by (simp add: stat_as_def)
  have h4: "IsDir (ModeDir OR 0x1ED)" by (simp add: IsDir_def ModeDir_def)
  have h5: "stat_as (Inr 0x1A4) mailCommand = Inr 0x1A4" by (simp add: stat_as_def)
  have h6: "(0x1A4 :: FileMode) AND 0x49 = 0" by simp
  have h7: "stat_as (Inr 0x1ED) mailCommand = Inr 0x1ED" by (simp add: stat_as_def)
  have h8: "IsRegular 0x1ED"
    by (simp add: IsRegular_def ModeType_def ModeDir_def ModeSymlink_def ModeNamedPipe_def
        ModeSocket_def ModeDevice_def ModeCharDevice_def ModeIrregular_def)
  have h9: "(0x1ED :: FileMode) AND 0x49 \<noteq> 0" by simp
  show ?thesis
    using validateMailCommand_cases [of
        "stat_as (Inl (OSError ''no such file or directory'' (Some ErrNotExist)))" mailCommand
        "OSError ''no such file or directory'' (Some ErrNotExist)"
        "stat_as (Inr (ModeDir OR 0x1ED))" "ModeDir OR 0x1ED"
        "stat_as (Inr 0x1A4)" "0x1A4" "stat_as (Inr 0x1ED)" "0x1ED",
        OF h1 h2 h3 h4 h5 h6 h7 h8 h9] h2 h4 h6 h8 h9 by blast
qed

subsection \<open>C8: a timeout is told apart\<close>

lemma errors_Is_refl: "errors_Is e e"
proof (cases e)
  case (OSError m x)
  then show ?thesis by (cases x) simp_all
qed simp_all

text \<open>
  Claim C8. When the run of the mail command fails and the 15 second deadline has passed,
  \<open>sendEmail\<close> returns an error that wraps \<open>context.DeadlineExceeded\<close>. When the run
  fails for another reason (its error does not wrap \<open>DeadlineExceeded\<close>), the error
  returned wraps the error of the run and does not wrap \<open>DeadlineExceeded\<close>, so
  \<open>errors.Is\<close> tells the two apart.
\<close>

theorem sendEmail_timeout_distinguished:
  assumes "EmailRecipient cfg \<noteq> noEmailRecipient"
    and "\<And>i. exec_run e1 i = RunFailed er1 True"
    and "\<And>i. exec_run e2 i = RunFailed er2 False" "\<not> errors_Is er2 DeadlineExceeded"
  shows "(\<exists>x. fst (sendEmail cfg subject body e1 w) = Some x \<and> errors_Is x DeadlineExceeded)
    \<and> (\<exists>y. fst (sendEmail cfg subject body e2 w) = Some y \<and> \<not> errors_Is y DeadlineExceeded
            \<and> errors_Is y er2)"
proof -
  show ?thesis
    using assms errors_Is_refl [of er2] by (simp add: sendEmail_def Let_def)
qed

theorem sendEmail_timeout_distinguished_witness:
  "EmailRecipient alice_cfg \<noteq> noEmailRecipient
   \<and> \<not> errors_Is (OSError ''exit status 1'' None) DeadlineExceeded
   \<and> (\<exists>x. fst (sendEmail alice_cfg ''s'' ''b''
              (no_sensor_env (RunFailed (OSError ''signal: killed'' None) True)) empty_world) = Some x
          \<and> errors_Is x DeadlineExceeded)
   \<and> (\<exists>y. fst (sendEmail alice_cfg ''s'' ''b''
              (no_sensor_env (RunFailed (OSError ''exit status 1'' None) False)) empty_world) = Some y
          \<and> \<not> errors_Is y DeadlineExceeded \<and> errors_Is y (OSError ''exit status 1'' None))"
proof -
  have h1: "EmailRecipient alice_cfg \<noteq> noEmailRecipient"
    by (simp add: alice_cfg_def default_flags_def noEmailRecipient_def)
  have h2: "\<And>i. exec_run (no_sensor_env (RunFailed (OSError ''signal: killed'' None) True)) i
      = RunFailed (OSError ''signal: killed'' None) True"
    by (simp add: no_sensor_env_def)
  have h3: "\<And>i. exec_run (no_sensor_env (RunFailed (OSError ''exit status 1'' None) False)) i
      = RunFailed (OSError ''exit status 1'' None) False"
    by (simp add: no_sensor_env_def)
  have h4: "\<not> errors_Is (OSError ''exit status 1'' None) DeadlineExceeded" by simp
  show ?thesis
    using sendEmail_timeout_distinguished [OF h1 h2 h3 h4, of "''s''" "''b''" empty_world] h1 h4
    by blast
qed

subsection \<open>C9: what a failed cycle does, and what ends the process\<close>






lemma goodbye_status [simp]: "status (goodbye w) = Exited 0"
  by (simp add: goodbye_def)












subsection \<open>C10: the test email reads the sensor first\<close>

lemma sublist_mid: "sublist x (a @ x @ b)"
  unfolding sublist_def by blast

text \<open>
  Claim C10. With a recipient configured, \<open>sendTestEmail\<close> reads the sensor before it
  composes anything: when the read fails it returns the error of the read and leaves the
  world as it was (nothing is sent, nothing is logged); when the read succeeds it runs
  the mail command once, and the body handed to it contains the reading (as \<open>%.2f\<close>
  prints it), the host name and the timestamp.
\<close>

theorem sendTestEmail_reads_sensor_first:
  assumes "EmailRecipient cfg \<noteq> noEmailRecipient"
    and "getCPUTemperature e1 = Inl er"
    and "getCPUTemperature e2 = Inr r"
  shows "sendTestEmail cfg e1 w = (Some er, w)
    \<and> (\<exists>i. runs (snd (sendTestEmail cfg e2 w)) = runs w @ [i]
          \<and> sublist (fmt_f2 r) (stdin i) \<and> sublist (Hostname cfg) (stdin i)
          \<and> sublist (now e2) (stdin i))"
proof -
  let ?body = "''Warning: this is a test email'' @ nl @ ''Hostname: '' @ Hostname cfg @ nl
     @ ''Current CPU temperature: '' @ fmt_f2 r @ degC @ nl @ ''Timestamp: '' @ now e2"
  let ?subject = "appName @ '': Test Alert ('' @ Hostname cfg @ '')''"
  have a: "sendTestEmail cfg e1 w = (Some er, w)"
    using assms(1,2) by (simp add: sendTestEmail_def)
  have b: "runs (snd (sendTestEmail cfg e2 w)) = runs (snd (sendEmail cfg ?subject ?body e2 w))"
    using assms(1,3) by (simp add: sendTestEmail_def Let_def split: prod.splits option.splits)
  have c: "runs (snd (sendEmail cfg ?subject ?body e2 w)) =
      runs w @ [\<lparr>argv = [mailCommand, ''-s'', ReplaceAll ?subject '';'' [],
                         ReplaceAll (EmailRecipient cfg) '';'' []], stdin = ?body\<rparr>]"
    using assms(1) by (simp add: sendEmail_def logf_def Let_def split: run_result.splits)
  have s1: "sublist (fmt_f2 r) ?body"
    using sublist_mid [of "fmt_f2 r" "''Warning: this is a test email'' @ nl @ ''Hostname: ''
        @ Hostname cfg @ nl @ ''Current CPU temperature: ''" "degC @ nl @ ''Timestamp: '' @ now e2"]
    by simp
  have s2: "sublist (Hostname cfg) ?body"
    using sublist_mid [of "Hostname cfg" "''Warning: this is a test email'' @ nl @ ''Hostname: ''"
        "nl @ ''Current CPU temperature: '' @ fmt_f2 r @ degC @ nl @ ''Timestamp: '' @ now e2"]
    by simp
  have s3: "sublist (now e2) ?body"
    using sublist_mid [of "now e2" "''Warning: this is a test email'' @ nl @ ''Hostname: ''
        @ Hostname cfg @ nl @ ''Current CPU temperature: '' @ fmt_f2 r @ degC @ nl @ ''Timestamp: ''" "[]"]
    by simp
  show ?thesis
    using a b c s1 s2 s3 by simp
qed

theorem sendTestEmail_reads_sensor_first_witness:
  "EmailRecipient alice_cfg \<noteq> noEmailRecipient
   \<and> getCPUTemperature (no_sensor_env RunOK)
       = Inl (Errorf read_failed (OSError ''no such file or directory'' (Some ErrNotExist)))
   \<and> getCPUTemperature (sensor_env (show_int 60000 @ nl) RunOK) = Inr (Finite False 60)
   \<and> sendTestEmail alice_cfg (no_sensor_env RunOK) empty_world
       = (Some (Errorf read_failed (OSError ''no such file or directory'' (Some ErrNotExist))),
          empty_world)
   \<and> (\<exists>i. runs (snd (sendTestEmail alice_cfg (sensor_env (show_int 60000 @ nl) RunOK) empty_world))
            = runs empty_world @ [i]
          \<and> sublist (fmt_f2 (Finite False 60)) (stdin i) \<and> sublist (Hostname alice_cfg) (stdin i)
          \<and> sublist (now (sensor_env (show_int 60000 @ nl) RunOK)) (stdin i))"
proof -
  have h1: "EmailRecipient alice_cfg \<noteq> noEmailRecipient"
    by (simp add: alice_cfg_def default_flags_def noEmailRecipient_def)
  have h2: "getCPUTemperature (no_sensor_env RunOK)
       = Inl (Errorf read_failed (OSError ''no such file or directory'' (Some ErrNotExist)))"
    by (simp add: getCPUTemperature_def no_sensor_env_def)
  have h3: "getCPUTemperature (sensor_env (show_int 60000 @ nl) RunOK) = Inr (Finite False 60)"
    by (rule getCPUTemperature_60)
  show ?thesis
    using sendTestEmail_reads_sensor_first [OF h1 h2 h3, of empty_world] h1 h2 h3 by blast
qed

end
